theory Spec2Isabelle
  imports Complex_Main "HOL-Library.Word"
begin

unbundle bit_operations_syntax

section \<open>Values shared by both protocol versions\<close>

text \<open>
  The repository holds two versions of \<^verbatim>\<open>SerialIO\<close>: the packed binary protocol of
  \<^verbatim>\<open>pkg/deej/serial.go\<close> (\<^verbatim>\<open>readBytes\<close>, \<^verbatim>\<open>handleBytes\<close>) and the delimited text
  protocol of \<^verbatim>\<open>unnamed/part_000\<close> (\<^verbatim>\<open>readLine\<close>, \<^verbatim>\<open>handleLine\<close>). Both are embedded
  here, each from its own file. Logging calls change neither state nor results and
  are left out; a Go run-time panic is a value of type \<open>panic\<close>.
\<close>

type_synonym byte = "8 word"
type_synonym uint16 = "16 word"
type_synonym chan = nat
type_synonym conn = nat

datatype panic = IndexOutOfRange | SliceBoundsOutOfRange

text \<open>Go \<^verbatim>\<open>error\<close> values: \<^verbatim>\<open>errors.New(msg)\<close> and \<^verbatim>\<open>fmt.Errorf("msg: %w", err)\<close>.\<close>

datatype error = ErrorsNew string | Errorf string error

text \<open>\<^verbatim>\<open>serial.OpenOptions\<close>, the fields that \<^verbatim>\<open>Start\<close> sets (\<^verbatim>\<open>uint\<close> is 64 bits wide).\<close>

record OpenOptions =
  PortName :: string
  BaudRate :: "64 word"
  DataBits :: "64 word"
  StopBits :: "64 word"
  MinimumReadSize :: "64 word"

text \<open>
  What \<^verbatim>\<open>SerialIO\<close> reaches through \<^verbatim>\<open>sio.deej\<close> and through the packages it imports.
  The type \<open>'f\<close> stands for Go's \<^verbatim>\<open>float32\<close>: its arithmetic is a parameter
  (\<open>f32 n\<close> is the conversion \<^verbatim>\<open>float32(n)\<close>, also used for the constants
  \<^verbatim>\<open>1023.0\<close>, \<^verbatim>\<open>1\<close>, \<^verbatim>\<open>0\<close> and \<^verbatim>\<open>-1.0\<close>), so every theorem below that is stated for
  all \<open>d\<close> holds for IEEE single precision as for any other arithmetic.
  \<^verbatim>\<open>util.Linux\<close>, \<^verbatim>\<open>util.NormalizeScalar\<close>, \<^verbatim>\<open>util.SignificantlyDifferent\<close> and
  \<^verbatim>\<open>sessions.getCurrentVolume\<close> belong to this repository but their files are not
  among the sources; \<^verbatim>\<open>serial.Open\<close> is the external serial package. The field
  \<open>initializationSequence\<close> is the outcome of \<^verbatim>\<open>performInitializationSequence\<close> of
  \<^verbatim>\<open>unnamed/part_000\<close> on an opened connection: an exchange with the device run by
  goroutines and timers, of which only the returned error is kept.
\<close>

record 'f deej =
  cfg_COMPort :: string
  cfg_BaudRate :: int
  InvertSliders :: bool
  NoiseReductionLevel :: string
  AdditiveIndices :: "int list"
  Verbose :: bool
  Linux :: bool
  NormalizeScalar :: "'f \<Rightarrow> 'f"
  SignificantlyDifferent :: "'f \<Rightarrow> 'f \<Rightarrow> string \<Rightarrow> bool"
  getCurrentVolume :: "int \<Rightarrow> 'f"
  f32 :: "int \<Rightarrow> 'f"
  f32_div :: "'f \<Rightarrow> 'f \<Rightarrow> 'f"
  f32_add :: "'f \<Rightarrow> 'f \<Rightarrow> 'f"
  f32_sub :: "'f \<Rightarrow> 'f \<Rightarrow> 'f"
  f32_less :: "'f \<Rightarrow> 'f \<Rightarrow> bool"
  serialOpen :: "OpenOptions \<Rightarrow> error + conn"
  initializationSequence :: "conn \<Rightarrow> error option"

text \<open>
  \<^verbatim>\<open>type SliderMoveEvent struct { SliderID int; PercentValue float32 }\<close> (part_000) and
  \<^verbatim>\<open>type SliderEvent struct { SliderID int; PercentValue float32; ToggleMute bool }\<close>
  (serial.go).
\<close>

record 'f SliderMoveEvent =
  SliderID :: int
  PercentValue :: 'f

record 'f SliderEvent = "'f SliderMoveEvent" +
  ToggleMute :: bool

text \<open>\<^verbatim>\<open>type VolumeData struct { Value float32; Mute bool }\<close>\<close>

record 'f VolumeData =
  vd_Value :: 'f
  vd_Mute :: bool

text \<open>\<^verbatim>\<open>type ArduinoData struct { Value int; ToggleMute bool }\<close>\<close>

record ArduinoData =
  ad_Value :: int
  ad_ToggleMute :: bool

text \<open>
  \<^verbatim>\<open>type SerialIO struct\<close>: the fields both versions share, then the per-channel state
  of each (\<^verbatim>\<open>currentVolumeDatas []VolumeData\<close> in serial.go,
  \<^verbatim>\<open>currentSliderPercentValues []float32\<close> in part_000). A \<^verbatim>\<open>nil\<close> connection is \<open>None\<close>;
  a consumer channel is known by its number.
\<close>

record SerialIO_link =
  connected :: bool
  connOptions :: OpenOptions
  conn :: "conn option"
  lastKnownNumSliders :: int
  sliderMoveConsumers :: "chan list"

record 'f SerialIO = SerialIO_link +
  currentVolumeDatas :: "'f VolumeData list"

record 'f SerialIO_line = SerialIO_link +
  currentSliderPercentValues :: "'f list"

section \<open>Start (both versions)\<close>

definition openOptions :: "'f deej \<Rightarrow> OpenOptions" where
  "openOptions d =
     (let minimumReadSize = (if Linux d then 1 else 0 :: int)
      in \<lparr> PortName = cfg_COMPort d,
           BaudRate = word_of_int (cfg_BaudRate d),
           DataBits = 8,
           StopBits = 1,
           MinimumReadSize = word_of_int minimumReadSize \<rparr>)"

text \<open>
  \<^verbatim>\<open>func (sio *SerialIO) Start() error\<close> of serial.go. The result is the state left
  behind and the returned error (\<open>None\<close> for \<^verbatim>\<open>nil\<close>). The goroutine that Start
  launches on success is the read loop, embedded below as \<open>readBytes\<close> and
  \<open>handleBytes\<close>.
\<close>

definition Start :: "'f deej \<Rightarrow> 'f SerialIO \<Rightarrow> 'f SerialIO \<times> error option" where
  "Start d sio =
     (if connected sio then (sio, Some (ErrorsNew ''serial: connection already active''))
      else
        let sio1 = sio\<lparr>connOptions := openOptions d\<rparr>
        in case serialOpen d (connOptions sio1) of
             Inl err \<Rightarrow> (sio1\<lparr>conn := None\<rparr>, Some (Errorf ''open serial connection'' err))
           | Inr c \<Rightarrow> (sio1\<lparr>conn := Some c, connected := True\<rparr>, None))"

text \<open>
  \<^verbatim>\<open>close\<close> and \<^verbatim>\<open>Start\<close> of part_000, which runs the initialization sequence before
  it launches the read loop and closes the connection when the sequence fails.
\<close>

definition close_line :: "'f SerialIO_line \<Rightarrow> 'f SerialIO_line" where
  "close_line sio = sio\<lparr>conn := None, connected := False\<rparr>"

definition Start_line :: "'f deej \<Rightarrow> 'f SerialIO_line \<Rightarrow> 'f SerialIO_line \<times> error option" where
  "Start_line d sio =
     (if connected sio then (sio, Some (ErrorsNew ''serial: connection already active''))
      else
        let sio1 = sio\<lparr>connOptions := openOptions d\<rparr>
        in case serialOpen d (connOptions sio1) of
             Inl err \<Rightarrow> (sio1\<lparr>conn := None\<rparr>, Some (Errorf ''open serial connection'' err))
           | Inr c \<Rightarrow>
               (let sio2 = sio1\<lparr>conn := Some c, connected := True\<rparr>
                in case initializationSequence d c of
                     Some err \<Rightarrow> (close_line sio2, Some (Errorf ''initialization failed'' err))
                   | None \<Rightarrow> (sio2, None)))"

section \<open>The frame readers\<close>

text \<open>
  \<^verbatim>\<open>reader.ReadBytes('\n')\<close> and \<^verbatim>\<open>reader.ReadString('\n')\<close> return the data read and
  an error. The reader is modelled by the list of the results its successive
  calls return; a loop that has used them all is waiting in its next read
  (\<open>Waiting\<close>). Each loop yields the units it sent on its channel, in order, and
  how it ended.
\<close>

datatype loop_end = Returned | Panicked panic | Waiting

text \<open>
  \<^verbatim>\<open>readBytes\<close> of serial.go:
  \<^verbatim>\<open>
  bytes, err := reader.ReadBytes('\n')
  if err != nil {
      if sio.deej.Verbose() {
          logger.Warnw(...)
          return
      }
  }
  ...
  ch <- bytes[:len(bytes)-1]
  \<close>
  The slice expression panics when \<^verbatim>\<open>bytes\<close> is empty.
\<close>

fun readBytes :: "'f deej \<Rightarrow> (byte list \<times> error option) list \<Rightarrow> byte list list \<times> loop_end" where
  "readBytes d [] = ([], Waiting)"
| "readBytes d ((bytes, err) # reads) =
     (if err \<noteq> None \<and> Verbose d then ([], Returned)
      else if length bytes = 0 then ([], Panicked SliceBoundsOutOfRange)
      else (case readBytes d reads of (sent, e) \<Rightarrow> (take (length bytes - 1) bytes # sent, e)))"

text \<open>
  \<^verbatim>\<open>readLine\<close> of part_000:
  \<^verbatim>\<open>
  line, err := reader.ReadString('\n')
  if err != nil {
      if sio.deej.Verbose() { logger.Warnw(...) }
      // just ignore the line, the read loop will stop after this
      return
  }
  ...
  ch <- line
  \<close>
\<close>

fun readLine :: "'f deej \<Rightarrow> (string \<times> error option) list \<Rightarrow> string list \<times> loop_end" where
  "readLine d [] = ([], Waiting)"
| "readLine d ((line, err) # reads) =
     (if err \<noteq> None then ([], Returned)
      else (case readLine d reads of (sent, e) \<Rightarrow> (line # sent, e)))"

section \<open>Binary wire format: decoding a frame (serial.go, handleBytes)\<close>

text \<open>
  The body of the decoding loop for the pair \<^verbatim>\<open>bytes[i]\<close>, \<^verbatim>\<open>bytes[i+1]\<close>:
  \<^verbatim>\<open>
  packed := uint16(bytes[i])<<8 | uint16(bytes[i+1])
  data[newDataIdx].ToggleMute = (packed>>11)&0x01 != 0
  rawValue := packed & 0x07FF
  if rawValue&0x0400 != 0 {
      data[newDataIdx].Value = int(int16(rawValue | 0xF800))
  } else {
      data[newDataIdx].Value = int(rawValue)
  }
  \<close>
\<close>

definition packWord :: "byte \<Rightarrow> byte \<Rightarrow> uint16" where
  "packWord hi lo = push_bit 8 (ucast hi) OR ucast lo"

definition decodeWord :: "byte \<Rightarrow> byte \<Rightarrow> ArduinoData" where
  "decodeWord hi lo =
     (let packed = packWord hi lo;
          toggle = (drop_bit 11 packed AND 0x01 \<noteq> 0);
          rawValue = packed AND 0x07FF
      in \<lparr> ad_Value = (if rawValue AND 0x0400 \<noteq> 0 then sint (rawValue OR 0xF800) else uint rawValue),
           ad_ToggleMute = toggle \<rparr>)"

text \<open>
  \<^verbatim>\<open>for i := 0; i < len(bytes); i += 2 { ... bytes[i] ... bytes[i+1] ... }\<close>:
  the loop from index \<open>i\<close> on, with the readings appended so far. Reading
  \<^verbatim>\<open>bytes[i+1]\<close> at \<^verbatim>\<open>i+1 = len(bytes)\<close> is Go's index-out-of-range panic.
\<close>

function decodeFrom :: "byte list \<Rightarrow> nat \<Rightarrow> ArduinoData list \<Rightarrow> panic + ArduinoData list" where
  "decodeFrom bytes i data =
     (if i < length bytes then
        (if i + 1 < length bytes
         then decodeFrom bytes (i + 2) (data @ [decodeWord (bytes ! i) (bytes ! (i + 1))])
         else Inl IndexOutOfRange)
      else Inr data)"
  by pat_completeness auto
termination
  by (relation "measure (\<lambda>(bytes, i, data). length bytes - i)") auto

declare decodeFrom.simps [simp del]

text \<open>
  The readings of a frame of whole words, by position: word \<open>k\<close> is the pair of bytes
  \<open>2k\<close> and \<open>2k + 1\<close>.
\<close>

definition frameWords :: "byte list \<Rightarrow> ArduinoData list" where
  "frameWords bytes =
     map (\<lambda>k. decodeWord (bytes ! (2 * k)) (bytes ! (2 * k + 1))) [0..<length bytes div 2]"

section \<open>Per-channel value (both versions)\<close>

text \<open>
  \<^verbatim>\<open>
  dirtyFloat := float32(number) / 1023.0
  normalizedScalar := util.NormalizeScalar(dirtyFloat)
  if sio.deej.config.InvertSliders { normalizedScalar = 1 - normalizedScalar }
  \<close>
\<close>

definition normalizedScalar :: "'f deej \<Rightarrow> int \<Rightarrow> 'f" where
  "normalizedScalar d number =
     (let dirtyFloat = f32_div d (f32 d number) (f32 d 1023);
          normalized = NormalizeScalar d dirtyFloat
      in if InvertSliders d then f32_sub d (f32 d 1) normalized else normalized)"

text \<open>
  serial.go only, for a slider whose index is in \<^verbatim>\<open>AdditiveIndices\<close>:
  \<^verbatim>\<open>
  finalVolume := sio.deej.sessions.getCurrentVolume(sliderIdx)
  if number != 0 {
      finalVolume += normalizedScalar
      if finalVolume < 0 { finalVolume = 0 }
      if finalVolume > 1 { finalVolume = 1 }
  }
  normalizedScalar = finalVolume
  \<close>
\<close>

definition additiveVolume :: "'f deej \<Rightarrow> nat \<Rightarrow> int \<Rightarrow> 'f \<Rightarrow> 'f" where
  "additiveVolume d sliderIdx number normalized =
     (let finalVolume = getCurrentVolume d (int sliderIdx)
      in if number \<noteq> 0 then
           (let finalVolume1 = f32_add d finalVolume normalized;
                finalVolume2 = (if f32_less d finalVolume1 (f32 d 0) then f32 d 0 else finalVolume1)
            in if f32_less d (f32 d 1) finalVolume2 then f32 d 1 else finalVolume2)
         else finalVolume)"

definition sliderValue :: "'f deej \<Rightarrow> nat \<Rightarrow> int \<Rightarrow> 'f" where
  "sliderValue d sliderIdx number =
     (if int sliderIdx \<in> set (AdditiveIndices d)
      then additiveVolume d sliderIdx number (normalizedScalar d number)
      else normalizedScalar d number)"

section \<open>The slider state of the binary protocol (serial.go, handleBytes)\<close>

text \<open>
  \<^verbatim>\<open>
  sio.currentVolumeDatas = make([]VolumeData, numSliders)
  for idx := range sio.currentVolumeDatas { sio.currentVolumeDatas[idx].Value = -1.0 }
  \<close>
  \<^verbatim>\<open>make\<close> gives zero values: \<^verbatim>\<open>Value\<close> 0 and \<^verbatim>\<open>Mute\<close> false.
\<close>

definition resetVolumeDatas :: "'f deej \<Rightarrow> nat \<Rightarrow> 'f VolumeData list" where
  "resetVolumeDatas d numSliders =
     map (\<lambda>v. v\<lparr>vd_Value := f32 d (- 1)\<rparr>)
       (replicate numSliders \<lparr> vd_Value = f32 d 0, vd_Mute = False \<rparr>)"

definition sliderEvent :: "'f deej \<Rightarrow> nat \<Rightarrow> ArduinoData \<Rightarrow> 'f SliderEvent" where
  "sliderEvent d sliderIdx arduinoData =
     \<lparr> SliderID = int sliderIdx,
       PercentValue = sliderValue d sliderIdx (ad_Value arduinoData),
       ToggleMute = ad_ToggleMute arduinoData \<rparr>"

text \<open>
  The test of the loop body and the entry it stores when the test holds:
  \<^verbatim>\<open>
  significantlyDifferent := util.SignificantlyDifferent(
      sio.currentVolumeDatas[sliderIdx].Value, normalizedScalar, sio.deej.config.NoiseReductionLevel)
  if significantlyDifferent || arduinoData.ToggleMute {
      sio.currentVolumeDatas[sliderIdx].Value = normalizedScalar
      sio.currentVolumeDatas[sliderIdx].Mute = !sio.currentVolumeDatas[sliderIdx].Mute
      sliderEvents = append(sliderEvents, SliderEvent{...})
  }
  \<close>
\<close>

definition sliderMoves :: "'f deej \<Rightarrow> 'f VolumeData \<Rightarrow> nat \<Rightarrow> ArduinoData \<Rightarrow> bool" where
  "sliderMoves d vol sliderIdx arduinoData =
     (let significantlyDifferent =
            SignificantlyDifferent d (vd_Value vol) (sliderValue d sliderIdx (ad_Value arduinoData))
              (NoiseReductionLevel d)
      in significantlyDifferent \<or> ad_ToggleMute arduinoData)"

definition movedVolume :: "'f deej \<Rightarrow> 'f VolumeData \<Rightarrow> nat \<Rightarrow> ArduinoData \<Rightarrow> 'f VolumeData" where
  "movedVolume d vol sliderIdx arduinoData =
     \<lparr> vd_Value = sliderValue d sliderIdx (ad_Value arduinoData), vd_Mute = (\<not> vd_Mute vol) \<rparr>"

text \<open>
  \<^verbatim>\<open>for sliderIdx, arduinoData := range data { ... }\<close> from slider \<open>sliderIdx\<close> on, over
  the slice \<^verbatim>\<open>currentVolumeDatas\<close> and the events appended so far. The result is a
  panic (an index beyond \<^verbatim>\<open>currentVolumeDatas\<close>), or the slice with \<open>None\<close> when
  the function returned from inside the loop (first number above 1023) and
  \<open>Some\<close> of the events when the loop ran to its end.
\<close>

fun sliderLoop ::
  "'f deej \<Rightarrow> nat \<Rightarrow> ArduinoData list \<Rightarrow> 'f VolumeData list \<Rightarrow> 'f SliderEvent list
     \<Rightarrow> panic + ('f VolumeData list \<times> 'f SliderEvent list option)" where
  "sliderLoop d sliderIdx [] vols sliderEvents = Inr (vols, Some sliderEvents)"
| "sliderLoop d sliderIdx (arduinoData # data) vols sliderEvents =
     (if sliderIdx = 0 \<and> ad_Value arduinoData > 1023 then Inr (vols, None)
      else if sliderIdx < length vols then
        (if sliderMoves d (vols ! sliderIdx) sliderIdx arduinoData then
           sliderLoop d (sliderIdx + 1) data
             (vols[sliderIdx := movedVolume d (vols ! sliderIdx) sliderIdx arduinoData])
             (sliderEvents @ [sliderEvent d sliderIdx arduinoData])
         else sliderLoop d (sliderIdx + 1) data vols sliderEvents)
      else Inl IndexOutOfRange)"

text \<open>
  \<^verbatim>\<open>
  if len(sliderEvents) > 0 {
      for _, consumer := range sio.sliderMoveConsumers {
          for _, moveEvent := range sliderEvents { consumer <- moveEvent }
      }
  }
  \<close>
  The sends in the order they happen, each with the channel it goes to.
\<close>

definition deliver :: "chan list \<Rightarrow> 'e list \<Rightarrow> (chan \<times> 'e) list" where
  "deliver consumers events =
     (if length events > 0
      then concat (map (\<lambda>consumer. map (\<lambda>moveEvent. (consumer, moveEvent)) events) consumers)
      else [])"

text \<open>
  \<^verbatim>\<open>handleBytes\<close>: the state it leaves, its slice \<^verbatim>\<open>sliderEvents\<close> and the sends
  made, or the panic that ends the program.
\<close>

definition countSliders :: "'f deej \<Rightarrow> nat \<Rightarrow> 'f SerialIO \<Rightarrow> 'f SerialIO" where
  "countSliders d numSliders sio =
     (if int numSliders \<noteq> lastKnownNumSliders sio
      then sio\<lparr>lastKnownNumSliders := int numSliders,
               currentVolumeDatas := resetVolumeDatas d numSliders\<rparr>
      else sio)"

definition handleBytes ::
  "'f deej \<Rightarrow> 'f SerialIO \<Rightarrow> byte list
     \<Rightarrow> panic + ('f SerialIO \<times> 'f SliderEvent list \<times> (chan \<times> 'f SliderEvent) list)" where
  "handleBytes d sio bytes =
     (case decodeFrom bytes 0 [] of
        Inl p \<Rightarrow> Inl p
      | Inr data \<Rightarrow>
          (let sio1 = countSliders d (length data) sio
           in case sliderLoop d 0 data (currentVolumeDatas sio1) [] of
                Inl p \<Rightarrow> Inl p
              | Inr (vols, None) \<Rightarrow> Inr (sio1\<lparr>currentVolumeDatas := vols\<rparr>, [], [])
              | Inr (vols, Some sliderEvents) \<Rightarrow>
                  Inr (sio1\<lparr>currentVolumeDatas := vols\<rparr>, sliderEvents,
                       deliver (sliderMoveConsumers sio1) sliderEvents)))"

section \<open>The text protocol (unnamed/part_000, handleLine)\<close>

subsection \<open>The line pattern\<close>

text \<open>
  Regular expressions as far as the two patterns of the repository need them:
  a character, the class \<^verbatim>\<open>\d\<close> (Go's is ASCII only), concatenation, \<^verbatim>\<open>r*\<close> and
  the bounded repetition \<^verbatim>\<open>r{m,n}\<close> (\<^verbatim>\<open>r?\<close> is \<^verbatim>\<open>r{0,1}\<close>). \<open>Zero\<close>, \<open>One\<close> and \<open>Alt\<close>
  are what the derivatives of these produce. Both patterns are anchored by
  \<^verbatim>\<open>^\<close> and \<^verbatim>\<open>$\<close> without the multi-line flag, so \<^verbatim>\<open>MatchString\<close> holds of a string
  exactly when the whole string matches what stands between the anchors.
\<close>

datatype regex =
  Zero | One | Chr char | Digit | Seq regex regex | Alt regex regex | Star regex | Rep nat nat regex

definition isDigit :: "char \<Rightarrow> bool" where
  "isDigit c = (c \<in> set ''0123456789'')"

text \<open>
  The bounded repetition \<^verbatim>\<open>r{m,n}\<close> is unfolded one round at a time: nothing more
  when \<open>m = 0\<close>, or one \<open>r\<close> followed by \<^verbatim>\<open>r{m-1,n-1}\<close> when \<open>n > 0\<close>. The measure
  \<open>rsize\<close> counts the rounds left, for the termination proofs.
\<close>

fun rsize :: "regex \<Rightarrow> nat" where
  "rsize (Seq r s) = Suc (rsize r + rsize s)"
| "rsize (Alt r s) = Suc (rsize r + rsize s)"
| "rsize (Star r) = Suc (rsize r)"
| "rsize (Rep m n r) = Suc (n + rsize r)"
| "rsize r = 0"

function (sequential) nullable :: "regex \<Rightarrow> bool" where
  "nullable Zero = False"
| "nullable One = True"
| "nullable (Chr c) = False"
| "nullable Digit = False"
| "nullable (Seq r s) = (nullable r \<and> nullable s)"
| "nullable (Alt r s) = (nullable r \<or> nullable s)"
| "nullable (Star r) = True"
| "nullable (Rep m 0 r) = (m = 0)"
| "nullable (Rep m (Suc n) r) = (m = 0 \<or> (nullable r \<and> nullable (Rep (m - 1) n r)))"
  by pat_completeness auto
termination
  by (relation "measure rsize") auto

function (sequential) deriv :: "char \<Rightarrow> regex \<Rightarrow> regex" where
  "deriv c Zero = Zero"
| "deriv c One = Zero"
| "deriv c (Chr c') = (if c = c' then One else Zero)"
| "deriv c Digit = (if isDigit c then One else Zero)"
| "deriv c (Seq r s) =
     (if nullable r then Alt (Seq (deriv c r) s) (deriv c s) else Seq (deriv c r) s)"
| "deriv c (Alt r s) = Alt (deriv c r) (deriv c s)"
| "deriv c (Star r) = Seq (deriv c r) (Star r)"
| "deriv c (Rep m 0 r) = Zero"
| "deriv c (Rep m (Suc n) r) =
     (if nullable r
      then Alt (Seq (deriv c r) (Rep (m - 1) n r)) (deriv c (Rep (m - 1) n r))
      else Seq (deriv c r) (Rep (m - 1) n r))"
  by pat_completeness auto
termination
  by (relation "measure (\<lambda>(c, r). rsize r)") auto

fun MatchString :: "regex \<Rightarrow> string \<Rightarrow> bool" where
  "MatchString r [] = nullable r"
| "MatchString r (c # s) = MatchString (deriv c r) s"

definition CR :: char where "CR = CHR 0x0D"
definition LF :: char where "LF = CHR 0x0A"

text \<open>A line as the firmware's \<^verbatim>\<open>Serial.println\<close> sends it: the text, then CR and LF.\<close>

definition println :: "string \<Rightarrow> string" where
  "println s = s @ [CR, LF]"

text \<open>part_000: \<^verbatim>\<open>var expectedLinePattern = regexp.MustCompile(`^\d{1,4}(\|\d{1,4})*\r\n$`)\<close>\<close>

definition expectedLinePattern :: regex where
  "expectedLinePattern =
     Seq (Rep 1 4 Digit)
       (Seq (Star (Seq (Chr (CHR ''|'')) (Rep 1 4 Digit)))
         (Seq (Chr CR) (Chr LF)))"

text \<open>
  serial.go: \<^verbatim>\<open>var expectedLinePattern = regexp.MustCompile(`^-?\d{1,4}(\|-?\d{1,4})*\r\n$`)\<close>.
  No function of serial.go uses it.
\<close>

definition expectedLinePattern_serial_go :: regex where
  "expectedLinePattern_serial_go =
     Seq (Seq (Rep 0 1 (Chr (CHR ''-''))) (Rep 1 4 Digit))
       (Seq (Star (Seq (Chr (CHR ''|'')) (Seq (Rep 0 1 (Chr (CHR ''-''))) (Rep 1 4 Digit))))
         (Seq (Chr CR) (Chr LF)))"

text \<open>
  The language of a regular expression, to relate the matcher to the grammar that the
  specification gives in words.
\<close>

definition conc :: "string set \<Rightarrow> string set \<Rightarrow> string set" where
  "conc A B = {u @ v | u v. u \<in> A \<and> v \<in> B}"

inductive_set star :: "string set \<Rightarrow> string set" for A :: "string set" where
  star_empty: "[] \<in> star A"
| star_step: "u \<in> A \<Longrightarrow> v \<in> star A \<Longrightarrow> u @ v \<in> star A"

function (sequential) lang :: "regex \<Rightarrow> string set" where
  "lang Zero = {}"
| "lang One = {[]}"
| "lang (Chr c) = {[c]}"
| "lang Digit = {[c] | c. isDigit c}"
| "lang (Seq r s) = conc (lang r) (lang s)"
| "lang (Alt r s) = lang r \<union> lang s"
| "lang (Star r) = star (lang r)"
| "lang (Rep m 0 r) = (if m = 0 then {[]} else {})"
| "lang (Rep m (Suc n) r) =
     (if m = 0 then {[]} else {}) \<union> conc (lang r) (lang (Rep (m - 1) n r))"
  by pat_completeness auto
termination
  by (relation "measure rsize") auto

text \<open>
  The line grammar in the words of the specification: one or more fields separated
  by \<open>|\<close> and followed by the line terminator, each field one to four digits, with
  an optional sign in front when \<open>withSign\<close>.
\<close>

definition isField :: "bool \<Rightarrow> string \<Rightarrow> bool" where
  "isField withSign f =
     (\<exists>sign digits. f = sign @ digits \<and> (sign = [] \<or> (withSign \<and> sign = ''-'')) \<and>
        1 \<le> length digits \<and> length digits \<le> 4 \<and> list_all isDigit digits)"

fun joinFields :: "string list \<Rightarrow> string" where
  "joinFields [] = []"
| "joinFields [f] = f"
| "joinFields (f # g # fs) = f @ ''|'' @ joinFields (g # fs)"

definition lineGrammar :: "bool \<Rightarrow> string \<Rightarrow> bool" where
  "lineGrammar withSign line =
     (\<exists>fields. fields \<noteq> [] \<and> list_all (isField withSign) fields \<and>
        line = println (joinFields fields))"

subsection \<open>The Go library functions that handleLine calls\<close>

text \<open>\<^verbatim>\<open>strings.TrimSuffix(s, suffix)\<close>\<close>

definition TrimSuffix :: "string \<Rightarrow> string \<Rightarrow> string" where
  "TrimSuffix s suffix =
     (if length suffix \<le> length s \<and> drop (length s - length suffix) s = suffix
      then take (length s - length suffix) s else s)"

text \<open>\<^verbatim>\<open>strings.Split(s, sep)\<close> for a separator of one character.\<close>

fun Split :: "string \<Rightarrow> char \<Rightarrow> string list" where
  "Split [] sep = [[]]"
| "Split (c # s) sep =
     (if c = sep then [] # Split s sep
      else (case Split s sep of [] \<Rightarrow> [[c]] | f # fs \<Rightarrow> (c # f) # fs))"

text \<open>
  \<^verbatim>\<open>strconv.Atoi(s)\<close>: an optional sign and decimal digits. A syntax error gives 0, a
  value outside \<^verbatim>\<open>int\<close> (64 bits) the nearest bound, each with an error.
\<close>

definition decimal :: "string \<Rightarrow> int" where
  "decimal digits = foldl (\<lambda>n c. n * 10 + (of_char c - 48)) 0 digits"

definition Atoi :: "string \<Rightarrow> int \<times> error option" where
  "Atoi s =
     (let neg = (s \<noteq> [] \<and> hd s = CHR ''-'');
          digits = (if s \<noteq> [] \<and> (hd s = CHR ''-'' \<or> hd s = CHR ''+'') then tl s else s)
      in if digits = [] \<or> \<not> list_all isDigit digits
         then (0, Some (ErrorsNew ''invalid syntax''))
         else if neg then
           (if decimal digits > 2 ^ 63
            then (- (2 ^ 63), Some (ErrorsNew ''value out of range''))
            else (- decimal digits, None))
         else
           (if decimal digits \<ge> 2 ^ 63
            then (2 ^ 63 - 1, Some (ErrorsNew ''value out of range''))
            else (decimal digits, None)))"

subsection \<open>handleLine\<close>

text \<open>
  \<^verbatim>\<open>
  sio.currentSliderPercentValues = make([]float32, numSliders)
  for idx := range sio.currentSliderPercentValues { sio.currentSliderPercentValues[idx] = -1.0 }
  \<close>
\<close>

definition countSliders_line :: "'f deej \<Rightarrow> nat \<Rightarrow> 'f SerialIO_line \<Rightarrow> 'f SerialIO_line" where
  "countSliders_line d numSliders sio =
     (if int numSliders \<noteq> lastKnownNumSliders sio
      then sio\<lparr>lastKnownNumSliders := int numSliders,
               currentSliderPercentValues := map (\<lambda>v. f32 d (- 1)) (replicate numSliders (f32 d 0))\<rparr>
      else sio)"

text \<open>
  The value of one field, the test of the loop body and the event it appends:
  \<^verbatim>\<open>
  number, _ := strconv.Atoi(stringValue)
  ...
  if util.SignificantlyDifferent(sio.currentSliderPercentValues[sliderIdx], normalizedScalar,
         sio.deej.config.NoiseReductionLevel) {
      sio.currentSliderPercentValues[sliderIdx] = normalizedScalar
      moveEvents = append(moveEvents, SliderMoveEvent{SliderID: sliderIdx, PercentValue: normalizedScalar})
  }
  \<close>
  The assignment from \<^verbatim>\<open>Atoi\<close> drops the error.
\<close>

definition lineValue :: "'f deej \<Rightarrow> string \<Rightarrow> 'f" where
  "lineValue d stringValue = normalizedScalar d (fst (Atoi stringValue))"

definition lineMoves :: "'f deej \<Rightarrow> 'f \<Rightarrow> string \<Rightarrow> bool" where
  "lineMoves d old stringValue =
     SignificantlyDifferent d old (lineValue d stringValue) (NoiseReductionLevel d)"

definition moveEvent :: "'f deej \<Rightarrow> nat \<Rightarrow> string \<Rightarrow> 'f SliderMoveEvent" where
  "moveEvent d sliderIdx stringValue =
     \<lparr> SliderID = int sliderIdx, PercentValue = lineValue d stringValue \<rparr>"

text \<open>
  \<^verbatim>\<open>for sliderIdx, stringValue := range splitLine { ... }\<close> from slider \<open>sliderIdx\<close> on;
  the result reads as that of \<open>sliderLoop\<close>.
\<close>

fun lineLoop ::
  "'f deej \<Rightarrow> nat \<Rightarrow> string list \<Rightarrow> 'f list \<Rightarrow> 'f SliderMoveEvent list
     \<Rightarrow> panic + ('f list \<times> 'f SliderMoveEvent list option)" where
  "lineLoop d sliderIdx [] vals moveEvents = Inr (vals, Some moveEvents)"
| "lineLoop d sliderIdx (stringValue # splitLine) vals moveEvents =
     (if sliderIdx = 0 \<and> fst (Atoi stringValue) > 1023 then Inr (vals, None)
      else if sliderIdx < length vals then
        (if lineMoves d (vals ! sliderIdx) stringValue then
           lineLoop d (sliderIdx + 1) splitLine (vals[sliderIdx := lineValue d stringValue])
             (moveEvents @ [moveEvent d sliderIdx stringValue])
         else lineLoop d (sliderIdx + 1) splitLine vals moveEvents)
      else Inl IndexOutOfRange)"

text \<open>
  \<^verbatim>\<open>line = strings.TrimSuffix(line, "\r\n"); splitLine := strings.Split(line, "|")\<close>,
  then \<^verbatim>\<open>handleLine\<close>: the state it leaves, its slice \<^verbatim>\<open>moveEvents\<close> and the sends
  made, or the panic that ends the program.
\<close>

definition splitLine :: "string \<Rightarrow> string list" where
  "splitLine line = Split (TrimSuffix line [CR, LF]) (CHR ''|'')"

definition handleLine ::
  "'f deej \<Rightarrow> 'f SerialIO_line \<Rightarrow> string
     \<Rightarrow> panic + ('f SerialIO_line \<times> 'f SliderMoveEvent list \<times> (chan \<times> 'f SliderMoveEvent) list)" where
  "handleLine d sio line =
     (if MatchString expectedLinePattern line then
        (let sio1 = countSliders_line d (length (splitLine line)) sio
         in case lineLoop d 0 (splitLine line) (currentSliderPercentValues sio1) [] of
              Inl p \<Rightarrow> Inl p
            | Inr (vals, None) \<Rightarrow> Inr (sio1\<lparr>currentSliderPercentValues := vals\<rparr>, [], [])
            | Inr (vals, Some moveEvents) \<Rightarrow>
                Inr (sio1\<lparr>currentSliderPercentValues := vals\<rparr>, moveEvents,
                     deliver (sliderMoveConsumers sio1) moveEvents))
      else Inr (sio, [], []))"

section \<open>The state between frames\<close>

text \<open>
  Between frames the slice of per-channel state has \<^verbatim>\<open>lastKnownNumSliders\<close> entries,
  or \<^verbatim>\<open>lastKnownNumSliders\<close> is 0 (as \<^verbatim>\<open>NewSerialIO\<close> leaves it and as the handler
  of a configuration reload sets it, without touching the slice).
\<close>

definition slidersKnown :: "'f SerialIO \<Rightarrow> bool" where
  "slidersKnown sio =
     (lastKnownNumSliders sio = 0 \<or>
      lastKnownNumSliders sio = int (length (currentVolumeDatas sio)))"

definition slidersKnown_line :: "'f SerialIO_line \<Rightarrow> bool" where
  "slidersKnown_line sio =
     (lastKnownNumSliders sio = 0 \<or>
      lastKnownNumSliders sio = int (length (currentSliderPercentValues sio)))"

section \<open>Construction, and a concrete instance\<close>

text \<open>
  \<^verbatim>\<open>NewSerialIO\<close> (the fields it does not set have Go's zero values) and
  \<^verbatim>\<open>SubscribeToSliderMoveEvents\<close>, whose new channel gets the next free number.
\<close>

definition zeroOpenOptions :: OpenOptions where
  "zeroOpenOptions =
     \<lparr> PortName = [], BaudRate = 0, DataBits = 0, StopBits = 0, MinimumReadSize = 0 \<rparr>"

definition NewSerialIO :: "'f SerialIO" where
  "NewSerialIO =
     \<lparr> connected = False, connOptions = zeroOpenOptions, conn = None,
       lastKnownNumSliders = 0, sliderMoveConsumers = [], currentVolumeDatas = [] \<rparr>"

definition NewSerialIO_line :: "'f SerialIO_line" where
  "NewSerialIO_line =
     \<lparr> connected = False, connOptions = zeroOpenOptions, conn = None,
       lastKnownNumSliders = 0, sliderMoveConsumers = [], currentSliderPercentValues = [] \<rparr>"

definition SubscribeToSliderMoveEvents :: "'f SerialIO \<Rightarrow> 'f SerialIO \<times> chan" where
  "SubscribeToSliderMoveEvents sio =
     (sio\<lparr>sliderMoveConsumers := sliderMoveConsumers sio @ [length (sliderMoveConsumers sio)]\<rparr>,
      length (sliderMoveConsumers sio))"

text \<open>
  Modelled from the spec: \<^verbatim>\<open>util.NormalizeScalar\<close>, whose file is not among the
  sources. The specification has the value "rounded to two-decimal precision".
\<close>

definition NormalizeScalar_spec :: "real \<Rightarrow> real" where
  "NormalizeScalar_spec v = real_of_int (round (v * 100)) / 100"

text \<open>
  Modelled from the spec: \<^verbatim>\<open>util.SignificantlyDifferent\<close>, whose file is not among
  the sources. The specification has a change reported "only if
  \<open>|new - old| > threshold\<close>", the threshold being the configured one; it is a
  function of the configured noise reduction level here.
\<close>

definition SignificantlyDifferent_spec :: "(string \<Rightarrow> real) \<Rightarrow> real \<Rightarrow> real \<Rightarrow> string \<Rightarrow> bool" where
  "SignificantlyDifferent_spec threshold old new noiseReductionLevel =
     (\<bar>new - old\<bar> > threshold noiseReductionLevel)"

text \<open>
  An instance for concrete runs: exact arithmetic in place of \<^verbatim>\<open>float32\<close>, the two
  helpers as modelled from the specification with a threshold of 0.025, no slider
  inverted or additive, a session volume of one half, a port that opens and a
  device that answers the initialization sequence.
\<close>

definition ideal_deej :: "real deej" where
  "ideal_deej =
     \<lparr> cfg_COMPort = ''COM4'', cfg_BaudRate = 9600,
       InvertSliders = False, NoiseReductionLevel = ''default'', AdditiveIndices = [],
       Verbose = False, Linux = True,
       NormalizeScalar = NormalizeScalar_spec,
       SignificantlyDifferent = SignificantlyDifferent_spec (\<lambda>level. 25 / 1000),
       getCurrentVolume = (\<lambda>sliderIdx. 1 / 2),
       f32 = real_of_int, f32_div = (/), f32_add = (+), f32_sub = (-), f32_less = (<),
       serialOpen = (\<lambda>options. Inr 3),
       initializationSequence = (\<lambda>c. None) \<rparr>"

section \<open>Facts about one channel word\<close>

lemma and_0x0400_iff_bit: "(w AND 0x0400 \<noteq> 0) = bit (w :: uint16) 10"
proof -
  have "(0x0400 :: uint16) = 2 ^ 10" by simp
  then show ?thesis by (simp only: and_exp_eq_0_iff_not_bit) simp
qed

lemma drop_bit_11_iff_bit: "(drop_bit 11 w AND 0x01 \<noteq> 0) = bit (w :: uint16) 11"
  by (simp add: bit_iff_and_drop_bit_eq_1 and_one_eq mod_2_eq_odd bit_iff_odd_drop_bit)

lemma x07FF_mask: "(0x07FF :: uint16) = mask 11"
  by (simp add: mask_eq_exp_minus_1)

lemma xF800_not_mask: "(0xF800 :: uint16) = NOT (mask 11)"
  by (simp add: mask_eq_exp_minus_1)

lemma bit_10_and_0x07FF: "bit ((w :: uint16) AND 0x07FF) 10 = bit w 10"
  by (simp only: x07FF_mask) (simp add: bit_simps)

lemma uint_and_0x07FF: "uint ((w :: uint16) AND 0x07FF) = uint w mod 2048"
  by (simp only: x07FF_mask take_bit_eq_mask [symmetric] unsigned_take_bit_eq)
    (simp add: take_bit_eq_mod)

lemma sint_sign_extended:
  assumes "bit (w :: uint16) 10"
  shows "sint ((w AND 0x07FF) OR 0xF800) = uint w mod 2048 - 2048"
proof -
  have "sint ((w AND mask 11) OR NOT (mask 11)) = signed_take_bit 10 (uint w)"
  proof (rule bit_eqI)
    fix n
    show "bit (sint ((w AND mask 11) OR NOT (mask 11))) n = bit (signed_take_bit 10 (uint w)) n"
      using assms
      by (cases "n = 10")
        (auto simp add: bit_simps bit_sint_iff bit_signed_take_bit_iff min_def)
  qed
  also have "\<dots> = uint w mod 2048 - 2048"
    using assms by (simp add: signed_take_bit_eq_take_bit_minus take_bit_eq_mod bit_uint_iff)
  finally show ?thesis
    by (simp only: x07FF_mask xF800_not_mask)
qed

lemma uint_packWord: "uint (packWord hi lo) = 256 * uint hi + uint lo"
proof -
  have disj: "push_bit 8 (ucast hi :: uint16) OR ucast lo = push_bit 8 (ucast hi) + ucast lo"
  proof (rule disjunctive_add_eq_or [symmetric])
    show "push_bit 8 (ucast hi :: uint16) AND ucast lo = 0"
      by (rule bit_eqI) (auto simp add: bit_simps dest: bit_imp_le_length)
  qed
  have hi: "0 \<le> uint hi" "uint hi < 256" and lo: "0 \<le> uint lo" "uint lo < 256"
    using uint_lt2p [of hi] uint_lt2p [of lo] by simp_all
  have "uint (packWord hi lo) = (uint hi mod 65536 * 256 mod 65536 + uint lo mod 65536) mod 65536"
    using disj
    by (simp add: packWord_def uint_word_ariths unsigned_push_bit_eq unsigned_ucast_eq
        push_bit_eq_mult take_bit_eq_mod)
  also have "\<dots> = 256 * uint hi + uint lo"
    using hi lo by simp
  finally show ?thesis .
qed

lemma decodeWord_ToggleMute: "ad_ToggleMute (decodeWord hi lo) = bit (packWord hi lo) 11"
  by (simp add: decodeWord_def Let_def drop_bit_11_iff_bit)

lemma decodeWord_Value:
  "ad_Value (decodeWord hi lo) =
     (if bit (packWord hi lo) 10
      then sint ((packWord hi lo AND 0x07FF) OR 0xF800)
      else uint (packWord hi lo AND 0x07FF))"
  by (simp add: decodeWord_def Let_def and_0x0400_iff_bit bit_10_and_0x07FF)

lemma decodeWord_Value_int:
  "ad_Value (decodeWord hi lo) =
     (if bit (packWord hi lo) 10
      then uint (packWord hi lo) mod 2048 - 2048
      else uint (packWord hi lo) mod 2048)"
  by (simp add: decodeWord_Value sint_sign_extended uint_and_0x07FF)

lemma mod_2048_split:
  "(k :: int) mod 2048 = 1024 * of_bool (bit k 10) + k mod 1024"
  using take_bit_Suc_from_most [of 10 k] by (simp add: take_bit_eq_mod)

lemma decodeWord_Value_range:
  "- 1024 \<le> ad_Value (decodeWord hi lo) \<and> ad_Value (decodeWord hi lo) \<le> 1023"
proof -
  let ?k = "uint (packWord hi lo)"
  have lo: "0 \<le> ?k mod 1024" and up: "?k mod 1024 < 1024"
    by simp_all
  show ?thesis
  proof (cases "bit (packWord hi lo) 10")
    case True
    then have "ad_Value (decodeWord hi lo) = ?k mod 1024 - 1024"
      using mod_2048_split [of ?k] by (simp add: decodeWord_Value_int bit_uint_iff)
    with lo up show ?thesis by linarith
  next
    case False
    then have "ad_Value (decodeWord hi lo) = ?k mod 1024"
      using mod_2048_split [of ?k] by (simp add: decodeWord_Value_int bit_uint_iff)
    with lo up show ?thesis by linarith
  qed
qed

lemma decodeFrom_one_word: "decodeFrom [hi, lo] 0 [] = Inr [decodeWord hi lo]"
  by (simp add: decodeFrom.simps)

section \<open>Facts about the decoding loop\<close>

lemma decodeFrom_odd:
  "odd (length bytes - i) \<Longrightarrow> decodeFrom bytes i data = Inl IndexOutOfRange"
proof (induction bytes i data rule: decodeFrom.induct)
  case (1 bytes i data)
  from "1.prems" have lt: "i < length bytes"
    by (cases "i < length bytes") simp_all
  show ?case
  proof (cases "i + 1 < length bytes")
    case True
    with "1.prems" have "odd (length bytes - (i + 2))" by (simp add: even_diff_nat) 
    with True lt "1.IH" show ?thesis
      by (subst decodeFrom.simps) simp
  next
    case False
    with lt show ?thesis by (subst decodeFrom.simps) simp
  qed
qed

lemma upt_shift: "[0..<Suc m] = 0 # map Suc [0..<m]"
  by (simp add: upt_conv_Cons map_Suc_upt del: upt_Suc)

lemma decodeFrom_even:
  "even (length bytes - i) \<Longrightarrow>
   decodeFrom bytes i data =
     Inr (data @ map (\<lambda>k. decodeWord (bytes ! (i + 2 * k)) (bytes ! (i + 2 * k + 1)))
                  [0..<(length bytes - i) div 2])"
proof (induction bytes i data rule: decodeFrom.induct)
  case (1 bytes i data)
  show ?case
  proof (cases "i < length bytes")
    case False
    then show ?thesis by (subst decodeFrom.simps) simp
  next
    case True
    have "length bytes - i \<noteq> 1"
      using "1.prems" by (metis odd_one)
    with True have lt: "i + 1 < length bytes"
      by arith
    then have "length bytes - i = Suc (Suc (length bytes - (i + 2)))"
      by arith
    then have m: "(length bytes - i) div 2 = Suc ((length bytes - (i + 2)) div 2)"
      by simp
    from "1.prems" lt have ev: "even (length bytes - (i + 2))" by auto
    show ?thesis
      using True lt "1.IH" [OF True lt ev] m
      by (subst decodeFrom.simps) (simp add: upt_shift comp_def del: upt_Suc)
  qed
qed

lemma decodeFrom_frameWords:
  "even (length bytes) \<Longrightarrow> decodeFrom bytes 0 [] = Inr (frameWords bytes)"
  using decodeFrom_even [of bytes 0 "[]"] by (simp add: frameWords_def)

lemma length_frameWords: "length (frameWords bytes) = length bytes div 2"
  by (simp add: frameWords_def)

section \<open>Facts about the slider loop of handleBytes\<close>

text \<open>The events the loop appends and the slice it leaves, read off the slice it started from.\<close>

lemma sliderLoop_run:
  assumes "sliderIdx + length data \<le> length vols"
      and "sliderIdx = 0 \<Longrightarrow> data \<noteq> [] \<Longrightarrow> ad_Value (hd data) \<le> 1023"
  shows "\<exists>vols'. sliderLoop d sliderIdx data vols evs =
           Inr (vols', Some (evs @
             map (\<lambda>(i, a). sliderEvent d i a)
               (filter (\<lambda>(i, a). sliderMoves d (vols ! i) i a)
                 (zip [sliderIdx..<sliderIdx + length data] data)))) \<and>
         length vols' = length vols \<and>
         (\<forall>j<length vols. vols' ! j =
            (if sliderIdx \<le> j \<and> j < sliderIdx + length data \<and>
                sliderMoves d (vols ! j) j (data ! (j - sliderIdx))
             then movedVolume d (vols ! j) j (data ! (j - sliderIdx))
             else vols ! j))"
  using assms
proof (induction data arbitrary: sliderIdx vols evs)
  case Nil
  then show ?case by auto
next
  case (Cons a data)
  from Cons.prems have lt: "sliderIdx < length vols" and first: "\<not> (sliderIdx = 0 \<and> ad_Value a > 1023)"
    by auto
  let ?vols1 = "if sliderMoves d (vols ! sliderIdx) sliderIdx a
                then vols[sliderIdx := movedVolume d (vols ! sliderIdx) sliderIdx a] else vols"
  let ?evs1 = "if sliderMoves d (vols ! sliderIdx) sliderIdx a
               then evs @ [sliderEvent d sliderIdx a] else evs"
  have step: "sliderLoop d sliderIdx (a # data) vols evs = sliderLoop d (Suc sliderIdx) data ?vols1 ?evs1"
    using lt first by auto
  have len1: "length ?vols1 = length vols" by simp
  have bound: "Suc sliderIdx + length data \<le> length ?vols1"
    using Cons.prems by simp
  from Cons.IH [OF bound, of ?evs1] obtain vols' where
    run: "sliderLoop d (Suc sliderIdx) data ?vols1 ?evs1 =
            Inr (vols', Some (?evs1 @
              map (\<lambda>(i, a). sliderEvent d i a)
                (filter (\<lambda>(i, a). sliderMoves d (?vols1 ! i) i a)
                  (zip [Suc sliderIdx..<Suc sliderIdx + length data] data))))"
    and len: "length vols' = length ?vols1"
    and nth: "\<forall>j<length ?vols1. vols' ! j =
            (if Suc sliderIdx \<le> j \<and> j < Suc sliderIdx + length data \<and>
                sliderMoves d (?vols1 ! j) j (data ! (j - Suc sliderIdx))
             then movedVolume d (?vols1 ! j) j (data ! (j - Suc sliderIdx))
             else ?vols1 ! j)"
    by auto
  have later: "?vols1 ! i = vols ! i" if "Suc sliderIdx \<le> i" for i
    using that by simp
  have filt: "filter (\<lambda>(i, a). sliderMoves d (?vols1 ! i) i a)
                (zip [Suc sliderIdx..<Suc sliderIdx + length data] data) =
              filter (\<lambda>(i, a). sliderMoves d (vols ! i) i a)
                (zip [Suc sliderIdx..<Suc sliderIdx + length data] data)"
  proof (rule filter_cong [OF refl])
    fix x assume "x \<in> set (zip [Suc sliderIdx..<Suc sliderIdx + length data] data)"
    then have "fst x \<in> set [Suc sliderIdx..<Suc sliderIdx + length data]"
      by (metis set_zip_leftD prod.collapse)
    then have "Suc sliderIdx \<le> fst x"
      by (simp del: upt_Suc)
    then show "(case x of (i, a) \<Rightarrow> sliderMoves d (?vols1 ! i) i a) =
               (case x of (i, a) \<Rightarrow> sliderMoves d (vols ! i) i a)"
      using later by (cases x) simp
  qed
  have upt: "[sliderIdx..<sliderIdx + length (a # data)] =
             sliderIdx # [Suc sliderIdx..<Suc sliderIdx + length data]"
    by (simp add: upt_conv_Cons del: upt_Suc)
  have events: "?evs1 @ map (\<lambda>(i, a). sliderEvent d i a)
                (filter (\<lambda>(i, a). sliderMoves d (vols ! i) i a)
                  (zip [Suc sliderIdx..<Suc sliderIdx + length data] data)) =
        evs @ map (\<lambda>(i, a). sliderEvent d i a)
               (filter (\<lambda>(i, a). sliderMoves d (vols ! i) i a)
                 (zip [sliderIdx..<sliderIdx + length (a # data)] (a # data)))"
    unfolding upt by simp
  have entries: "vols' ! j =
            (if sliderIdx \<le> j \<and> j < sliderIdx + length (a # data) \<and>
                sliderMoves d (vols ! j) j ((a # data) ! (j - sliderIdx))
             then movedVolume d (vols ! j) j ((a # data) ! (j - sliderIdx))
             else vols ! j)" if j: "j < length vols" for j
  proof (cases "j = sliderIdx")
    case True
    with nth j lt show ?thesis by simp
  next
    case False
    show ?thesis
    proof (cases "Suc sliderIdx \<le> j")
      case True
      then have "j - sliderIdx = Suc (j - Suc sliderIdx)" by simp
      with True nth j later [OF True] show ?thesis by simp
    next
      case False
      with \<open>j \<noteq> sliderIdx\<close> have "j < sliderIdx" by simp
      with nth j show ?thesis by simp
    qed
  qed
  show ?case
    unfolding step using run len entries
    by (simp only: filt events len1) blast
qed

section \<open>Facts about handleBytes\<close>

lemma frameWords_Value_le: "a \<in> set (frameWords bytes) \<Longrightarrow> ad_Value a \<le> 1023"
  using decodeWord_Value_range by (auto simp add: frameWords_def)

lemma length_resetVolumeDatas: "length (resetVolumeDatas d n) = n"
  by (simp add: resetVolumeDatas_def)

lemma resetVolumeDatas_replicate:
  "resetVolumeDatas d n = replicate n \<lparr> vd_Value = f32 d (- 1), vd_Mute = False \<rparr>"
  by (simp add: resetVolumeDatas_def)

lemma countSliders_enough:
  assumes "slidersKnown sio \<or> int n \<noteq> lastKnownNumSliders sio"
  shows "n \<le> length (currentVolumeDatas (countSliders d n sio))"
  using assms by (auto simp add: countSliders_def slidersKnown_def length_resetVolumeDatas)

lemma countSliders_consumers: "sliderMoveConsumers (countSliders d n sio) = sliderMoveConsumers sio"
  by (simp add: countSliders_def)

lemma zip_upt_events:
  "set (map (\<lambda>(i, a). f i a) (filter (\<lambda>(i, a). P i a) (zip [0..<length data] data))) =
   {f i (data ! i) | i. i < length data \<and> P i (data ! i)}"
  by (auto simp add: set_zip image_iff) force

lemma handleBytes_run:
  assumes even: "even (length bytes)"
      and enough: "length (frameWords bytes) \<le>
                   length (currentVolumeDatas (countSliders d (length (frameWords bytes)) sio))"
  shows "\<exists>vols'.
           handleBytes d sio bytes =
             Inr ((countSliders d (length (frameWords bytes)) sio)\<lparr>currentVolumeDatas := vols'\<rparr>,
                  map (\<lambda>(i, a). sliderEvent d i a)
                    (filter (\<lambda>(i, a). sliderMoves d
                        (currentVolumeDatas (countSliders d (length (frameWords bytes)) sio) ! i) i a)
                      (zip [0..<length (frameWords bytes)] (frameWords bytes))),
                  deliver (sliderMoveConsumers sio)
                    (map (\<lambda>(i, a). sliderEvent d i a)
                      (filter (\<lambda>(i, a). sliderMoves d
                          (currentVolumeDatas (countSliders d (length (frameWords bytes)) sio) ! i) i a)
                        (zip [0..<length (frameWords bytes)] (frameWords bytes))))) \<and>
           length vols' = length (currentVolumeDatas (countSliders d (length (frameWords bytes)) sio)) \<and>
           (\<forall>j<length (frameWords bytes). vols' ! j =
              (if sliderMoves d (currentVolumeDatas (countSliders d (length (frameWords bytes)) sio) ! j)
                    j (frameWords bytes ! j)
               then movedVolume d (currentVolumeDatas (countSliders d (length (frameWords bytes)) sio) ! j)
                      j (frameWords bytes ! j)
               else currentVolumeDatas (countSliders d (length (frameWords bytes)) sio) ! j))"
proof -
  let ?data = "frameWords bytes"
  let ?sio1 = "countSliders d (length ?data) sio"
  let ?vols = "currentVolumeDatas ?sio1"
  have first: "(0::nat) = 0 \<Longrightarrow> ?data \<noteq> [] \<Longrightarrow> ad_Value (hd ?data) \<le> 1023"
    using frameWords_Value_le [of "hd ?data" bytes] by simp
  have bound: "0 + length ?data \<le> length ?vols"
    using enough by simp
  from sliderLoop_run [OF bound first, of d "[]"] obtain vols' where
    run: "sliderLoop d 0 ?data ?vols [] =
            Inr (vols', Some ([] @ map (\<lambda>(i, a). sliderEvent d i a)
               (filter (\<lambda>(i, a). sliderMoves d (?vols ! i) i a)
                 (zip [0..<0 + length ?data] ?data))))"
    and len: "length vols' = length ?vols"
    and nth: "\<forall>j<length ?vols. vols' ! j =
            (if 0 \<le> j \<and> j < 0 + length ?data \<and> sliderMoves d (?vols ! j) j (?data ! (j - 0))
             then movedVolume d (?vols ! j) j (?data ! (j - 0))
             else ?vols ! j)"
    by blast
  have "handleBytes d sio bytes =
          Inr (?sio1\<lparr>currentVolumeDatas := vols'\<rparr>,
               map (\<lambda>(i, a). sliderEvent d i a)
                 (filter (\<lambda>(i, a). sliderMoves d (?vols ! i) i a) (zip [0..<length ?data] ?data)),
               deliver (sliderMoveConsumers sio)
                 (map (\<lambda>(i, a). sliderEvent d i a)
                   (filter (\<lambda>(i, a). sliderMoves d (?vols ! i) i a) (zip [0..<length ?data] ?data))))"
    using run by (simp add: handleBytes_def Let_def decodeFrom_frameWords [OF even] countSliders_consumers)
  moreover have "\<forall>j<length ?data. vols' ! j =
              (if sliderMoves d (?vols ! j) j (?data ! j)
               then movedVolume d (?vols ! j) j (?data ! j) else ?vols ! j)"
    using nth enough by simp
  ultimately show ?thesis using len by blast
qed

lemma map_zip_upt:
  "map (\<lambda>(i, a). f i a) (zip [0..<length data] data) = map (\<lambda>i. f i (data ! i)) [0..<length data]"
  by (rule nth_equalityI) auto

lemma filter_zip_upt_all:
  assumes "\<forall>i<length data. P i (data ! i)"
  shows "filter (\<lambda>(i, a). P i a) (zip [0..<length data] data) = zip [0..<length data] data"
  using assms by (auto simp add: filter_id_conv set_zip)

lemma SliderID_sliderEvent: "SliderID (sliderEvent d i a) = int i"
  by (simp add: sliderEvent_def)

lemma handleBytes_result:
  fixes d :: "'f deej"
  defines "n \<equiv> \<lambda>bytes. length (frameWords bytes)"
  defines "vols \<equiv> \<lambda>sio bytes. currentVolumeDatas (countSliders d (n bytes) sio)"
  assumes even: "even (length bytes)"
      and enough: "slidersKnown sio \<or> int (n bytes) \<noteq> lastKnownNumSliders sio"
  shows "\<exists>sio' evs.
           handleBytes d sio bytes = Inr (sio', evs, deliver (sliderMoveConsumers sio) evs) \<and>
           lastKnownNumSliders sio' = int (n bytes) \<and>
           sliderMoveConsumers sio' = sliderMoveConsumers sio \<and>
           length (currentVolumeDatas sio') = length (vols sio bytes) \<and>
           set evs = {sliderEvent d i (frameWords bytes ! i) | i.
                        i < n bytes \<and> sliderMoves d (vols sio bytes ! i) i (frameWords bytes ! i)} \<and>
           ((\<forall>i<n bytes. sliderMoves d (vols sio bytes ! i) i (frameWords bytes ! i)) \<longrightarrow>
              evs = map (\<lambda>i. sliderEvent d i (frameWords bytes ! i)) [0..<n bytes]) \<and>
           (\<forall>j<n bytes. currentVolumeDatas sio' ! j =
              (if sliderMoves d (vols sio bytes ! j) j (frameWords bytes ! j)
               then movedVolume d (vols sio bytes ! j) j (frameWords bytes ! j)
               else vols sio bytes ! j))"
proof -
  let ?data = "frameWords bytes"
  let ?sio1 = "countSliders d (length ?data) sio"
  let ?vols = "currentVolumeDatas ?sio1"
  let ?evs = "map (\<lambda>(i, a). sliderEvent d i a)
                (filter (\<lambda>(i, a). sliderMoves d (?vols ! i) i a) (zip [0..<length ?data] ?data))"
  have le: "length ?data \<le> length ?vols"
    using enough countSliders_enough [of sio "length ?data" d] by (simp add: n_def)
  from handleBytes_run [OF even le] obtain vols' where
    run: "handleBytes d sio bytes =
            Inr (?sio1\<lparr>currentVolumeDatas := vols'\<rparr>, ?evs, deliver (sliderMoveConsumers sio) ?evs)"
    and len: "length vols' = length ?vols"
    and nth: "\<forall>j<length ?data. vols' ! j =
              (if sliderMoves d (?vols ! j) j (?data ! j)
               then movedVolume d (?vols ! j) j (?data ! j) else ?vols ! j)"
    by blast
  have count: "lastKnownNumSliders (?sio1\<lparr>currentVolumeDatas := vols'\<rparr>) = int (length ?data)"
    by (simp add: countSliders_def)
  have cons: "sliderMoveConsumers (?sio1\<lparr>currentVolumeDatas := vols'\<rparr>) = sliderMoveConsumers sio"
    by (simp add: countSliders_def)
  have set_evs: "set ?evs = {sliderEvent d i (?data ! i) | i.
                   i < length ?data \<and> sliderMoves d (?vols ! i) i (?data ! i)}"
    by (rule zip_upt_events)
  have all: "?evs = map (\<lambda>i. sliderEvent d i (?data ! i)) [0..<length ?data]"
    if "\<forall>i<length ?data. sliderMoves d (?vols ! i) i (?data ! i)"
    using filter_zip_upt_all [of ?data "\<lambda>i a. sliderMoves d (?vols ! i) i a", OF that]
    by (simp only: map_zip_upt)
  show ?thesis
    unfolding n_def vols_def
  proof (intro exI conjI)
    show "handleBytes d sio bytes =
            Inr (?sio1\<lparr>currentVolumeDatas := vols'\<rparr>, ?evs, deliver (sliderMoveConsumers sio) ?evs)"
      by (rule run)
    show "lastKnownNumSliders (?sio1\<lparr>currentVolumeDatas := vols'\<rparr>) = int (length ?data)"
      by (rule count)
    show "sliderMoveConsumers (?sio1\<lparr>currentVolumeDatas := vols'\<rparr>) = sliderMoveConsumers sio"
      by (rule cons)
    show "length (currentVolumeDatas (?sio1\<lparr>currentVolumeDatas := vols'\<rparr>)) = length ?vols"
      using len by simp
    show "set ?evs = {sliderEvent d i (?data ! i) | i.
                   i < length ?data \<and> sliderMoves d (?vols ! i) i (?data ! i)}"
      by (rule set_evs)
    show "(\<forall>i<length ?data. sliderMoves d (?vols ! i) i (?data ! i)) \<longrightarrow>
            ?evs = map (\<lambda>i. sliderEvent d i (?data ! i)) [0..<length ?data]"
      using all by blast
    show "\<forall>j<length ?data. currentVolumeDatas (?sio1\<lparr>currentVolumeDatas := vols'\<rparr>) ! j =
              (if sliderMoves d (?vols ! j) j (?data ! j)
               then movedVolume d (?vols ! j) j (?data ! j) else ?vols ! j)"
      using nth by simp
  qed
qed

lemma handleBytes_odd:
  "odd (length bytes) \<Longrightarrow> handleBytes d sio bytes = Inl IndexOutOfRange"
  using decodeFrom_odd [of bytes 0 "[]"] by (simp add: handleBytes_def)

section \<open>Facts about handleLine\<close>

lemma Split_not_Nil: "Split s sep \<noteq> []"
  by (induction s) (auto split: list.splits)

lemma splitLine_not_Nil: "splitLine line \<noteq> []"
  by (simp add: splitLine_def Split_not_Nil)

lemma lineLoop_run:
  assumes "sliderIdx + length strs \<le> length vals"
      and "sliderIdx = 0 \<Longrightarrow> strs \<noteq> [] \<Longrightarrow> fst (Atoi (hd strs)) \<le> 1023"
  shows "\<exists>vals'. lineLoop d sliderIdx strs vals evs =
           Inr (vals', Some (evs @
             map (\<lambda>(i, s). moveEvent d i s)
               (filter (\<lambda>(i, s). lineMoves d (vals ! i) s)
                 (zip [sliderIdx..<sliderIdx + length strs] strs)))) \<and>
         length vals' = length vals \<and>
         (\<forall>j<length vals. vals' ! j =
            (if sliderIdx \<le> j \<and> j < sliderIdx + length strs \<and>
                lineMoves d (vals ! j) (strs ! (j - sliderIdx))
             then lineValue d (strs ! (j - sliderIdx))
             else vals ! j))"
  using assms
proof (induction strs arbitrary: sliderIdx vals evs)
  case Nil
  then show ?case by auto
next
  case (Cons s strs)
  from Cons.prems have lt: "sliderIdx < length vals"
    and first: "\<not> (sliderIdx = 0 \<and> fst (Atoi s) > 1023)"
    by auto
  let ?vals1 = "if lineMoves d (vals ! sliderIdx) s then vals[sliderIdx := lineValue d s] else vals"
  let ?evs1 = "if lineMoves d (vals ! sliderIdx) s then evs @ [moveEvent d sliderIdx s] else evs"
  have step: "lineLoop d sliderIdx (s # strs) vals evs = lineLoop d (Suc sliderIdx) strs ?vals1 ?evs1"
    using lt first by auto
  have len1: "length ?vals1 = length vals" by simp
  have bound: "Suc sliderIdx + length strs \<le> length ?vals1"
    using Cons.prems by simp
  from Cons.IH [OF bound, of ?evs1] obtain vals' where
    run: "lineLoop d (Suc sliderIdx) strs ?vals1 ?evs1 =
            Inr (vals', Some (?evs1 @
              map (\<lambda>(i, s). moveEvent d i s)
                (filter (\<lambda>(i, s). lineMoves d (?vals1 ! i) s)
                  (zip [Suc sliderIdx..<Suc sliderIdx + length strs] strs))))"
    and len: "length vals' = length ?vals1"
    and nth: "\<forall>j<length ?vals1. vals' ! j =
            (if Suc sliderIdx \<le> j \<and> j < Suc sliderIdx + length strs \<and>
                lineMoves d (?vals1 ! j) (strs ! (j - Suc sliderIdx))
             then lineValue d (strs ! (j - Suc sliderIdx))
             else ?vals1 ! j)"
    by auto
  have later: "?vals1 ! i = vals ! i" if "Suc sliderIdx \<le> i" for i
    using that by simp
  have filt: "filter (\<lambda>(i, s). lineMoves d (?vals1 ! i) s)
                (zip [Suc sliderIdx..<Suc sliderIdx + length strs] strs) =
              filter (\<lambda>(i, s). lineMoves d (vals ! i) s)
                (zip [Suc sliderIdx..<Suc sliderIdx + length strs] strs)"
  proof (rule filter_cong [OF refl])
    fix x assume "x \<in> set (zip [Suc sliderIdx..<Suc sliderIdx + length strs] strs)"
    then have "fst x \<in> set [Suc sliderIdx..<Suc sliderIdx + length strs]"
      by (metis set_zip_leftD prod.collapse)
    then have "Suc sliderIdx \<le> fst x"
      by (simp del: upt_Suc)
    then show "(case x of (i, s) \<Rightarrow> lineMoves d (?vals1 ! i) s) =
               (case x of (i, s) \<Rightarrow> lineMoves d (vals ! i) s)"
      using later by (cases x) simp
  qed
  have upt: "[sliderIdx..<sliderIdx + length (s # strs)] =
             sliderIdx # [Suc sliderIdx..<Suc sliderIdx + length strs]"
    by (simp add: upt_conv_Cons del: upt_Suc)
  have events: "?evs1 @ map (\<lambda>(i, s). moveEvent d i s)
                (filter (\<lambda>(i, s). lineMoves d (vals ! i) s)
                  (zip [Suc sliderIdx..<Suc sliderIdx + length strs] strs)) =
        evs @ map (\<lambda>(i, s). moveEvent d i s)
               (filter (\<lambda>(i, s). lineMoves d (vals ! i) s)
                 (zip [sliderIdx..<sliderIdx + length (s # strs)] (s # strs)))"
    unfolding upt by simp
  have entries: "vals' ! j =
            (if sliderIdx \<le> j \<and> j < sliderIdx + length (s # strs) \<and>
                lineMoves d (vals ! j) ((s # strs) ! (j - sliderIdx))
             then lineValue d ((s # strs) ! (j - sliderIdx))
             else vals ! j)" if j: "j < length vals" for j
  proof (cases "j = sliderIdx")
    case True
    with nth j lt show ?thesis by simp
  next
    case False
    show ?thesis
    proof (cases "Suc sliderIdx \<le> j")
      case True
      then have "j - sliderIdx = Suc (j - Suc sliderIdx)" by simp
      with True nth j later [OF True] show ?thesis by simp
    next
      case False
      with \<open>j \<noteq> sliderIdx\<close> have "j < sliderIdx" by simp
      with nth j show ?thesis by simp
    qed
  qed
  show ?case
    unfolding step using run len entries
    by (simp only: filt events len1) blast
qed

lemma countSliders_line_enough:
  assumes "slidersKnown_line sio \<or> int n \<noteq> lastKnownNumSliders sio"
  shows "n \<le> length (currentSliderPercentValues (countSliders_line d n sio))"
  using assms by (auto simp add: countSliders_line_def slidersKnown_line_def)

lemma handleLine_no_match:
  "\<not> MatchString expectedLinePattern line \<Longrightarrow> handleLine d sio line = Inr (sio, [], [])"
  by (simp add: handleLine_def)

lemma handleLine_dropped:
  assumes "MatchString expectedLinePattern line"
      and "fst (Atoi (hd (splitLine line))) > 1023"
  shows "handleLine d sio line = Inr (countSliders_line d (length (splitLine line)) sio, [], [])"
proof -
  obtain s strs where sp: "splitLine line = s # strs"
    using splitLine_not_Nil [of line] by (cases "splitLine line") auto
  with assms show ?thesis
    by (simp add: handleLine_def Let_def)
qed

lemma handleLine_result:
  fixes d :: "'f deej"
  defines "vals \<equiv> \<lambda>sio line. currentSliderPercentValues (countSliders_line d (length (splitLine line)) sio)"
  assumes match: "MatchString expectedLinePattern line"
      and first: "fst (Atoi (hd (splitLine line))) \<le> 1023"
      and enough: "slidersKnown_line sio \<or> int (length (splitLine line)) \<noteq> lastKnownNumSliders sio"
  shows "\<exists>sio' evs.
           handleLine d sio line = Inr (sio', evs, deliver (sliderMoveConsumers sio) evs) \<and>
           lastKnownNumSliders sio' = int (length (splitLine line)) \<and>
           sliderMoveConsumers sio' = sliderMoveConsumers sio \<and>
           length (currentSliderPercentValues sio') = length (vals sio line) \<and>
           set evs = {moveEvent d i (splitLine line ! i) | i.
                        i < length (splitLine line) \<and> lineMoves d (vals sio line ! i) (splitLine line ! i)} \<and>
           ((\<forall>i<length (splitLine line). lineMoves d (vals sio line ! i) (splitLine line ! i)) \<longrightarrow>
              evs = map (\<lambda>i. moveEvent d i (splitLine line ! i)) [0..<length (splitLine line)]) \<and>
           (\<forall>j<length (splitLine line). currentSliderPercentValues sio' ! j =
              (if lineMoves d (vals sio line ! j) (splitLine line ! j)
               then lineValue d (splitLine line ! j)
               else vals sio line ! j))"
proof -
  let ?data = "splitLine line"
  let ?sio1 = "countSliders_line d (length ?data) sio"
  let ?vals = "currentSliderPercentValues ?sio1"
  let ?evs = "map (\<lambda>(i, s). moveEvent d i s)
                (filter (\<lambda>(i, s). lineMoves d (?vals ! i) s) (zip [0..<length ?data] ?data))"
  have le: "0 + length ?data \<le> length ?vals"
    using enough countSliders_line_enough [of sio "length ?data" d] by simp
  have first': "(0::nat) = 0 \<Longrightarrow> ?data \<noteq> [] \<Longrightarrow> fst (Atoi (hd ?data)) \<le> 1023"
    using first by simp
  from lineLoop_run [OF le first', of d "[]"] obtain vals' where
    loop: "lineLoop d 0 ?data ?vals [] = Inr (vals', Some ?evs)"
    and len: "length vals' = length ?vals"
    and nth: "\<forall>j<length ?vals. vals' ! j =
            (if 0 \<le> j \<and> j < 0 + length ?data \<and> lineMoves d (?vals ! j) (?data ! (j - 0))
             then lineValue d (?data ! (j - 0))
             else ?vals ! j)"
    by auto
  have run: "handleLine d sio line =
          Inr (?sio1\<lparr>currentSliderPercentValues := vals'\<rparr>, ?evs, deliver (sliderMoveConsumers sio) ?evs)"
    using loop match by (simp add: handleLine_def Let_def countSliders_line_def)
  have set_evs: "set ?evs = {moveEvent d i (?data ! i) | i.
                   i < length ?data \<and> lineMoves d (?vals ! i) (?data ! i)}"
    using zip_upt_events [of "\<lambda>i s. moveEvent d i s" "\<lambda>i s. lineMoves d (?vals ! i) s" ?data] by simp
  have all: "?evs = map (\<lambda>i. moveEvent d i (?data ! i)) [0..<length ?data]"
    if "\<forall>i<length ?data. lineMoves d (?vals ! i) (?data ! i)"
    using filter_zip_upt_all [of ?data "\<lambda>i s. lineMoves d (?vals ! i) s", OF that]
    by (simp only: map_zip_upt)
  show ?thesis
    unfolding vals_def
  proof (intro exI conjI)
    show "handleLine d sio line =
            Inr (?sio1\<lparr>currentSliderPercentValues := vals'\<rparr>, ?evs, deliver (sliderMoveConsumers sio) ?evs)"
      by (rule run)
    show "lastKnownNumSliders (?sio1\<lparr>currentSliderPercentValues := vals'\<rparr>) = int (length ?data)"
      by (simp add: countSliders_line_def)
    show "sliderMoveConsumers (?sio1\<lparr>currentSliderPercentValues := vals'\<rparr>) = sliderMoveConsumers sio"
      by (simp add: countSliders_line_def)
    show "length (currentSliderPercentValues (?sio1\<lparr>currentSliderPercentValues := vals'\<rparr>)) = length ?vals"
      using len by simp
    show "set ?evs = {moveEvent d i (?data ! i) | i.
                   i < length ?data \<and> lineMoves d (?vals ! i) (?data ! i)}"
      by (rule set_evs)
    show "(\<forall>i<length ?data. lineMoves d (?vals ! i) (?data ! i)) \<longrightarrow>
            ?evs = map (\<lambda>i. moveEvent d i (?data ! i)) [0..<length ?data]"
      using all by blast
    show "\<forall>j<length ?data. currentSliderPercentValues (?sio1\<lparr>currentSliderPercentValues := vals'\<rparr>) ! j =
              (if lineMoves d (?vals ! j) (?data ! j)
               then lineValue d (?data ! j) else ?vals ! j)"
      using nth le by simp
  qed
qed

lemma vd_Mute_movedVolume: "vd_Mute (movedVolume d vol i a) = (\<not> vd_Mute vol)"
  by (simp add: movedVolume_def)

lemma ToggleMute_sliderEvent: "ToggleMute (sliderEvent d i a) = ad_ToggleMute a"
  by (simp add: sliderEvent_def)

lemma PercentValue_sliderEvent: "PercentValue (sliderEvent d i a) = sliderValue d i (ad_Value a)"
  by (simp add: sliderEvent_def)

lemma handleBytes_zero_frame:
  "handleBytes ideal_deej NewSerialIO [0x00, 0x00] =
     Inr (NewSerialIO\<lparr>lastKnownNumSliders := 1,
                      currentVolumeDatas := [\<lparr> vd_Value = 0, vd_Mute = True \<rparr>]\<rparr>,
          [\<lparr> SliderID = 0, PercentValue = 0, ToggleMute = False \<rparr>], [])"
  by (simp add: handleBytes_def decodeFrom.simps decodeWord_def packWord_def countSliders_def
      NewSerialIO_def resetVolumeDatas_def ideal_deej_def sliderValue_def normalizedScalar_def
      NormalizeScalar_spec_def SignificantlyDifferent_spec_def sliderEvent_def sliderMoves_def
      movedVolume_def deliver_def Let_def)

lemma countSliders_line_same:
  "int n = lastKnownNumSliders sio \<Longrightarrow> countSliders_line d n sio = sio"
  by (simp add: countSliders_line_def)

lemma countSliders_line_reset:
  "int n \<noteq> lastKnownNumSliders sio \<Longrightarrow>
   countSliders_line d n sio =
     sio\<lparr>lastKnownNumSliders := int n, currentSliderPercentValues := replicate n (f32 d (- 1))\<rparr>"
  by (simp add: countSliders_line_def)

lemma countSliders_reset:
  "int n \<noteq> lastKnownNumSliders sio \<Longrightarrow>
   countSliders d n sio =
     sio\<lparr>lastKnownNumSliders := int n,
         currentVolumeDatas := replicate n \<lparr> vd_Value = f32 d (- 1), vd_Mute = False \<rparr>\<rparr>"
  by (simp add: countSliders_def resetVolumeDatas_replicate)

lemma line_4558: "MatchString expectedLinePattern (println ''4558|925'')"
  by (simp add: println_def) code_simp

lemma splitLine_4558: "splitLine (println ''4558|925'') = [''4558'', ''925'']"
  by (simp add: println_def splitLine_def TrimSuffix_def CR_def LF_def)

lemma Atoi_4558: "Atoi ''4558'' = (4558, None)"
  by (simp add: Atoi_def decimal_def isDigit_def)

section \<open>Which sliders get an event\<close>

lemma SliderID_moveEvent: "SliderID (moveEvent d i s) = int i"
  by (simp add: moveEvent_def)

lemma PercentValue_moveEvent: "PercentValue (moveEvent d i s) = lineValue d s"
  by (simp add: moveEvent_def)

lemma event_for_slider_iff:
  assumes "set evs = {ev i | i. i < n \<and> P i}" and "\<And>i. SliderID (ev i) = int i" and "i < n"
  shows "(\<exists>e\<in>set evs. SliderID e = int i) = P i"
proof
  assume "\<exists>e\<in>set evs. SliderID e = int i"
  then obtain k where "k < n" "P k" "SliderID (ev k) = int i"
    using assms(1) by auto
  with assms(2) [of k] show "P i" by simp
next
  assume "P i"
  with assms(1,3) have "ev i \<in> set evs" by auto
  with assms(2) [of i] show "\<exists>e\<in>set evs. SliderID e = int i" by blast
qed

lemma handleBytes_events:
  assumes "even (length bytes)" and "slidersKnown sio"
  shows "\<exists>sio' evs sends.
           handleBytes d sio bytes = Inr (sio', evs, sends) \<and>
           (\<forall>e\<in>set evs. \<exists>i<length (frameWords bytes). e = sliderEvent d i (frameWords bytes ! i)) \<and>
           (\<forall>i<length (frameWords bytes).
              ((\<exists>e\<in>set evs. SliderID e = int i) =
                 sliderMoves d (currentVolumeDatas (countSliders d (length (frameWords bytes)) sio) ! i)
                   i (frameWords bytes ! i)) \<and>
              (sliderMoves d (currentVolumeDatas (countSliders d (length (frameWords bytes)) sio) ! i)
                   i (frameWords bytes ! i) \<longrightarrow>
                 sliderEvent d i (frameWords bytes ! i) \<in> set evs \<and>
                 currentVolumeDatas sio' ! i =
                   movedVolume d (currentVolumeDatas (countSliders d (length (frameWords bytes)) sio) ! i)
                     i (frameWords bytes ! i)))"
proof -
  let ?data = "frameWords bytes"
  let ?vols = "currentVolumeDatas (countSliders d (length ?data) sio)"
  from handleBytes_result [of bytes sio d] assms obtain sio' evs where
    run: "handleBytes d sio bytes = Inr (sio', evs, deliver (sliderMoveConsumers sio) evs)"
    and evs: "set evs = {sliderEvent d i (?data ! i) | i.
                 i < length ?data \<and> sliderMoves d (?vols ! i) i (?data ! i)}"
    and nth: "\<forall>j<length ?data. currentVolumeDatas sio' ! j =
              (if sliderMoves d (?vols ! j) j (?data ! j)
               then movedVolume d (?vols ! j) j (?data ! j) else ?vols ! j)"
    by blast
  have a: "\<forall>e\<in>set evs. \<exists>i<length ?data. e = sliderEvent d i (?data ! i)"
    using evs by auto
  have b: "(\<exists>e\<in>set evs. SliderID e = int i) = sliderMoves d (?vols ! i) i (?data ! i)"
    if "i < length ?data" for i
    using event_for_slider_iff [of evs "\<lambda>i. sliderEvent d i (?data ! i)" "length ?data"
        "\<lambda>i. sliderMoves d (?vols ! i) i (?data ! i)" i] evs that
    by (simp add: SliderID_sliderEvent)
  have c: "sliderEvent d i (?data ! i) \<in> set evs \<and>
           currentVolumeDatas sio' ! i = movedVolume d (?vols ! i) i (?data ! i)"
    if "i < length ?data" "sliderMoves d (?vols ! i) i (?data ! i)" for i
    using that evs nth by auto
  show ?thesis
    using run a b c by blast
qed

lemma handleLine_events:
  assumes "MatchString expectedLinePattern line" and "fst (Atoi (hd (splitLine line))) \<le> 1023"
      and "slidersKnown_line sio"
  shows "\<exists>sio' evs sends.
           handleLine d sio line = Inr (sio', evs, sends) \<and>
           (\<forall>e\<in>set evs. \<exists>i<length (splitLine line). e = moveEvent d i (splitLine line ! i)) \<and>
           (\<forall>i<length (splitLine line).
              (\<exists>e\<in>set evs. SliderID e = int i) =
                 lineMoves d
                   (currentSliderPercentValues (countSliders_line d (length (splitLine line)) sio) ! i)
                   (splitLine line ! i))"
proof -
  let ?data = "splitLine line"
  let ?vals = "currentSliderPercentValues (countSliders_line d (length ?data) sio)"
  from handleLine_result [of line sio d] assms obtain sio' evs where
    run: "handleLine d sio line = Inr (sio', evs, deliver (sliderMoveConsumers sio) evs)"
    and evs: "set evs = {moveEvent d i (?data ! i) | i.
                 i < length ?data \<and> lineMoves d (?vals ! i) (?data ! i)}"
    by blast
  have a: "\<forall>e\<in>set evs. \<exists>i<length ?data. e = moveEvent d i (?data ! i)"
    using evs by auto
  have b: "(\<exists>e\<in>set evs. SliderID e = int i) = lineMoves d (?vals ! i) (?data ! i)"
    if "i < length ?data" for i
    using event_for_slider_iff [of evs "\<lambda>i. moveEvent d i (?data ! i)" "length ?data"
        "\<lambda>i. lineMoves d (?vals ! i) (?data ! i)" i] evs that
    by (simp add: SliderID_moveEvent)
  show ?thesis
    using run a b by blast
qed

section \<open>Concrete runs\<close>

lemmas ideal_run =
  handleBytes_def decodeFrom.simps decodeWord_def packWord_def countSliders_def
  NewSerialIO_def resetVolumeDatas_def ideal_deej_def sliderValue_def normalizedScalar_def
  NormalizeScalar_spec_def SignificantlyDifferent_spec_def sliderEvent_def sliderMoves_def
  movedVolume_def deliver_def Let_def

lemma frameWords_one: "frameWords [hi, lo] = [decodeWord hi lo]"
  by (simp add: frameWords_def)

lemma frameWords_two: "frameWords [a, b, c, e] = [decodeWord a b, decodeWord c e]"
  by (simp add: frameWords_def upt_rec)

lemma handleBytes_two_sliders:
  "handleBytes ideal_deej NewSerialIO [0x00, 0x00, 0x03, 0xFF] =
     Inr (NewSerialIO\<lparr>lastKnownNumSliders := 2,
                      currentVolumeDatas := [\<lparr> vd_Value = 0, vd_Mute = True \<rparr>,
                                             \<lparr> vd_Value = 1, vd_Mute = True \<rparr>]\<rparr>,
          [\<lparr> SliderID = 0, PercentValue = 0, ToggleMute = False \<rparr>,
           \<lparr> SliderID = 1, PercentValue = 1, ToggleMute = False \<rparr>], [])"
  by (simp add: ideal_run)

lemma handleBytes_zero_frame_again:
  "handleBytes ideal_deej
     (NewSerialIO\<lparr>lastKnownNumSliders := 1,
                  currentVolumeDatas := [\<lparr> vd_Value = 0, vd_Mute = True \<rparr>]\<rparr>) [0x00, 0x00] =
     Inr (NewSerialIO\<lparr>lastKnownNumSliders := 1,
                      currentVolumeDatas := [\<lparr> vd_Value = 0, vd_Mute = True \<rparr>]\<rparr>, [], [])"
  by (simp add: ideal_run)

lemma handleBytes_minus_1023:
  "handleBytes ideal_deej NewSerialIO [0x04, 0x01] =
     Inr (NewSerialIO\<lparr>lastKnownNumSliders := 1,
                      currentVolumeDatas := [\<lparr> vd_Value = - 1, vd_Mute = False \<rparr>]\<rparr>, [], [])"
  by (simp add: ideal_run)

lemmas ideal_line_run =
  handleLine_def println_def splitLine_def TrimSuffix_def CR_def LF_def countSliders_line_def
  NewSerialIO_line_def ideal_deej_def lineValue_def lineMoves_def moveEvent_def normalizedScalar_def
  NormalizeScalar_spec_def SignificantlyDifferent_spec_def Atoi_def decimal_def isDigit_def
  deliver_def Let_def

lemma line_0_1023: "MatchString expectedLinePattern (println ''0|1023'')"
  by (simp add: println_def) code_simp

lemma splitLine_0_1023: "splitLine (println ''0|1023'') = [''0'', ''1023'']"
  by (simp add: println_def splitLine_def TrimSuffix_def CR_def LF_def)

lemma handleLine_two_sliders:
  "handleLine ideal_deej NewSerialIO_line (println ''0|1023'') =
     Inr (NewSerialIO_line\<lparr>lastKnownNumSliders := 2, currentSliderPercentValues := [0, 1]\<rparr>,
          [\<lparr> SliderID = 0, PercentValue = 0 \<rparr>, \<lparr> SliderID = 1, PercentValue = 1 \<rparr>], [])"
  using line_0_1023 by (simp add: handleLine_def splitLine_0_1023) (simp add: ideal_line_run)

lemma slidersKnown_New: "slidersKnown NewSerialIO"
  by (simp add: slidersKnown_def NewSerialIO_def)

lemma slidersKnown_line_New: "slidersKnown_line NewSerialIO_line"
  by (simp add: slidersKnown_line_def NewSerialIO_line_def)

section \<open>The matcher and the language of a pattern\<close>

lemma Nil_in_conc: "[] \<in> conc A B \<longleftrightarrow> [] \<in> A \<and> [] \<in> B"
  by (auto simp add: conc_def)

lemma in_conc: "s \<in> conc A B \<longleftrightarrow> (\<exists>u v. s = u @ v \<and> u \<in> A \<and> v \<in> B)"
  by (auto simp add: conc_def)

lemma nullable_iff: "nullable r \<longleftrightarrow> [] \<in> lang r"
  by (induction r rule: nullable.induct) (auto simp add: Nil_in_conc star_empty)

lemma Cons_in_conc:
  "c # s \<in> conc A B \<longleftrightarrow>
     ([] \<in> A \<and> c # s \<in> B) \<or> (\<exists>u v. s = u @ v \<and> c # u \<in> A \<and> v \<in> B)"
  unfolding conc_def
  by (auto simp add: Cons_eq_append_conv)

lemma star_Cons_split:
  assumes "w \<in> star A"
  shows "\<forall>c s. w = c # s \<longrightarrow> (\<exists>u v. s = u @ v \<and> c # u \<in> A \<and> v \<in> star A)"
  using assms
proof (induction rule: star.induct)
  case star_empty
  then show ?case by simp
next
  case (star_step u v)
  show ?case
  proof (cases u)
    case Nil
    with star_step show ?thesis by simp
  next
    case (Cons x u')
    with star_step show ?thesis by auto
  qed
qed

lemma Cons_in_star:
  "c # s \<in> star A \<longleftrightarrow> (\<exists>u v. s = u @ v \<and> c # u \<in> A \<and> v \<in> star A)"
proof
  assume "c # s \<in> star A"
  from star_Cons_split [OF this] show "\<exists>u v. s = u @ v \<and> c # u \<in> A \<and> v \<in> star A"
    by simp
next
  assume "\<exists>u v. s = u @ v \<and> c # u \<in> A \<and> v \<in> star A"
  then obtain u v where "s = u @ v" "c # u \<in> A" "v \<in> star A" by blast
  then show "c # s \<in> star A"
    using star_step [of "c # u" A v] by simp
qed

lemma lang_deriv: "s \<in> lang (deriv c r) \<longleftrightarrow> c # s \<in> lang r"
proof (induction c r arbitrary: s rule: deriv.induct)
  case (5 c r1 r2)
  have split: "s \<in> conc (lang (deriv c r1)) (lang r2) \<longleftrightarrow>
               (\<exists>u v. s = u @ v \<and> c # u \<in> lang r1 \<and> v \<in> lang r2)"
    using "5.IH"(1) "5.IH"(3) by (cases "nullable r1") (simp_all add: in_conc)
  show ?case
  proof (cases "nullable r1")
    case True
    with "5.IH"(2) [OF True] split show ?thesis
      by (simp add: Cons_in_conc nullable_iff) blast
  next
    case False
    with split show ?thesis
      by (simp add: Cons_in_conc nullable_iff)
  qed
next
  case (7 c r)
  then show ?case
    by (simp add: Cons_in_star in_conc)
next
  case (9 c m n r)
  let ?rest = "Rep (m - 1) n r"
  have split: "s \<in> conc (lang (deriv c r)) (lang ?rest) \<longleftrightarrow>
               (\<exists>u v. s = u @ v \<and> c # u \<in> lang r \<and> v \<in> lang ?rest)"
    using "9.IH"(1) "9.IH"(3) by (cases "nullable r") (simp_all add: in_conc)
  show ?case
  proof (cases "nullable r")
    case True
    with "9.IH"(2) [OF True] split show ?thesis
      by (simp add: Cons_in_conc nullable_iff) blast
  next
    case False
    with split show ?thesis
      by (simp add: Cons_in_conc nullable_iff)
  qed
qed auto

lemma MatchString_iff_lang: "MatchString r s \<longleftrightarrow> s \<in> lang r"
  by (induction s arbitrary: r) (simp_all add: nullable_iff lang_deriv)

lemma in_conc_Digit:
  "s \<in> conc (lang Digit) X \<longleftrightarrow> (\<exists>c v. s = c # v \<and> isDigit c \<and> v \<in> X)"
proof
  assume "s \<in> conc (lang Digit) X"
  then show "\<exists>c v. s = c # v \<and> isDigit c \<and> v \<in> X"
    by (auto simp add: in_conc)
next
  assume "\<exists>c v. s = c # v \<and> isDigit c \<and> v \<in> X"
  then obtain c v where "s = c # v" "isDigit c" "v \<in> X" by blast
  then have "s = [c] @ v \<and> [c] \<in> lang Digit \<and> v \<in> X" by simp
  then show "s \<in> conc (lang Digit) X"
    unfolding in_conc by blast
qed

lemma lang_Rep_0_Digit: "lang (Rep 0 n Digit) = {ds. length ds \<le> n \<and> list_all isDigit ds}"
proof (induction n)
  case 0
  then show ?case by auto
next
  case (Suc n)
  show ?case
  proof (rule set_eqI)
    fix ds
    show "ds \<in> lang (Rep 0 (Suc n) Digit) \<longleftrightarrow> ds \<in> {ds. length ds \<le> Suc n \<and> list_all isDigit ds}"
      using Suc by (cases ds) (auto simp add: in_conc_Digit simp del: lang.simps(4))
  qed
qed

lemma lang_Rep_1_Digit:
  "lang (Rep (Suc 0) (Suc n) Digit) = {ds. 1 \<le> length ds \<and> length ds \<le> Suc n \<and> list_all isDigit ds}"
proof (rule set_eqI)
  fix ds
  show "ds \<in> lang (Rep (Suc 0) (Suc n) Digit) \<longleftrightarrow>
        ds \<in> {ds. 1 \<le> length ds \<and> length ds \<le> Suc n \<and> list_all isDigit ds}"
    by (cases ds) (auto simp add: in_conc_Digit lang_Rep_0_Digit simp del: lang.simps(4))
qed

lemma isField_unsigned:
  "isField False f \<longleftrightarrow> 1 \<le> length f \<and> length f \<le> 4 \<and> list_all isDigit f"
  by (auto simp add: isField_def)

lemma lang_digits: "lang (Rep 1 4 Digit) = {f. isField False f}"
proof -
  have "Rep 1 4 Digit = Rep (Suc 0) (Suc 3) Digit" by simp
  then show ?thesis
    by (simp only: lang_Rep_1_Digit isField_unsigned) simp
qed

lemma star_separated:
  "w \<in> star (conc {[c]} F) \<longleftrightarrow>
     (\<exists>fs. list_all (\<lambda>f. f \<in> F) fs \<and> w = concat (map (\<lambda>f. c # f) fs))"
proof
  assume "w \<in> star (conc {[c]} F)"
  then show "\<exists>fs. list_all (\<lambda>f. f \<in> F) fs \<and> w = concat (map (\<lambda>f. c # f) fs)"
  proof (induction rule: star.induct)
    case star_empty
    show ?case by (rule exI [of _ "[]"]) simp
  next
    case (star_step u v)
    then obtain f fs where "u = c # f" "f \<in> F" "list_all (\<lambda>f. f \<in> F) fs"
      "v = concat (map (\<lambda>f. c # f) fs)"
      by (auto simp add: in_conc)
    then show ?case by (intro exI [of _ "f # fs"]) simp
  qed
next
  assume "\<exists>fs. list_all (\<lambda>f. f \<in> F) fs \<and> w = concat (map (\<lambda>f. c # f) fs)"
  then obtain fs where "list_all (\<lambda>f. f \<in> F) fs" "w = concat (map (\<lambda>f. c # f) fs)"
    by blast
  then show "w \<in> star (conc {[c]} F)"
  proof (induction fs arbitrary: w)
    case Nil
    then show ?case by (simp add: star_empty)
  next
    case (Cons f fs)
    then have "c # f \<in> conc {[c]} F" and "concat (map (\<lambda>f. c # f) fs) \<in> star (conc {[c]} F)"
      by (simp_all add: in_conc)
    then have "(c # f) @ concat (map (\<lambda>f. c # f) fs) \<in> star (conc {[c]} F)"
      by (rule star_step)
    with Cons.prems show ?case by simp
  qed
qed

lemma joinFields_Cons: "joinFields (f # fs) = f @ concat (map (\<lambda>g. CHR ''|'' # g) fs)"
  by (induction fs arbitrary: f) simp_all

lemma lang_expectedLinePattern_eq:
  "lang expectedLinePattern =
     conc {f. isField False f}
       (conc (star (conc {[CHR ''|'']} {f. isField False f})) (conc {[CR]} {[LF]}))"
  by (simp only: expectedLinePattern_def lang.simps lang_digits)

lemma in_CRLF: "t \<in> conc {[CR]} {[LF]} \<longleftrightarrow> t = [CR, LF]"
  by (auto simp add: in_conc)

lemma lang_expectedLinePattern: "s \<in> lang expectedLinePattern \<longleftrightarrow> lineGrammar False s"
proof
  assume "s \<in> lang expectedLinePattern"
  then obtain f w where f: "isField False f"
    and w: "w \<in> star (conc {[CHR ''|'']} {f. isField False f})"
    and s: "s = f @ w @ [CR, LF]"
    unfolding lang_expectedLinePattern_eq in_conc [of s] in_conc [of _ "star _"] in_CRLF
    by blast
  from w obtain fs where fs: "list_all (isField False) fs"
    and "w = concat (map (\<lambda>g. CHR ''|'' # g) fs)"
    by (auto simp add: star_separated)
  with s have "s = println (joinFields (f # fs))"
    by (simp add: println_def joinFields_Cons)
  with f fs show "lineGrammar False s"
    unfolding lineGrammar_def by (intro exI [of _ "f # fs"]) simp
next
  assume "lineGrammar False s"
  then obtain fields where ne: "fields \<noteq> []" and all: "list_all (isField False) fields"
    and s: "s = println (joinFields fields)"
    by (auto simp add: lineGrammar_def)
  from ne obtain f fs where fields: "fields = f # fs" by (cases fields) auto
  let ?w = "concat (map (\<lambda>g. CHR ''|'' # g) fs)"
  have "?w \<in> star (conc {[CHR ''|'']} {f. isField False f})"
    using all fields by (auto simp add: star_separated)
  moreover have "isField False f"
    using all fields by simp
  moreover have "s = f @ ?w @ [CR, LF]"
    using s fields by (simp add: println_def joinFields_Cons)
  ultimately show "s \<in> lang expectedLinePattern"
    unfolding lang_expectedLinePattern_eq in_conc [of s] in_conc [of _ "star _"] in_CRLF
    by blast
qed

lemma TrimSuffix_println: "TrimSuffix (println s) [CR, LF] = s"
  by (simp add: TrimSuffix_def println_def)

lemma Split_no_sep: "sep \<notin> set f \<Longrightarrow> Split f sep = [f]"
  by (induction f) auto

lemma Split_field_sep: "sep \<notin> set f \<Longrightarrow> Split (f @ sep # rest) sep = f # Split rest sep"
  by (induction f) auto

lemma Split_joined:
  assumes "list_all (\<lambda>g. CHR ''|'' \<notin> set g) (f # fs)"
  shows "Split (f @ concat (map (\<lambda>g. CHR ''|'' # g) fs)) (CHR ''|'') = f # fs"
  using assms
proof (induction fs arbitrary: f)
  case Nil
  then show ?case by (simp add: Split_no_sep)
next
  case (Cons g fs)
  then have "Split (g @ concat (map (\<lambda>g. CHR ''|'' # g) fs)) (CHR ''|'') = g # fs"
    by simp
  with Cons.prems show ?case
    by (simp add: Split_field_sep)
qed

lemma isDigit_not_bar: "isDigit c \<Longrightarrow> c \<noteq> CHR ''|''"
  by (auto simp add: isDigit_def)

lemma isField_no_bar:
  assumes "isField withSign f"
  shows "CHR ''|'' \<notin> set f"
proof
  assume bar: "CHR ''|'' \<in> set f"
  from assms obtain sign digits where f: "f = sign @ digits"
    and sign: "sign = [] \<or> sign = ''-''" and digits: "list_all isDigit digits"
    unfolding isField_def by blast
  from bar f sign have "CHR ''|'' \<in> set digits"
    by auto
  with digits have "isDigit (CHR ''|'')"
    by (simp add: list_all_iff)
  then show False
    using isDigit_not_bar by blast
qed

lemma splitLine_grammar:
  assumes "flds \<noteq> []" and "list_all (isField withSign) flds"
  shows "splitLine (println (joinFields flds)) = flds"
proof -
  from assms(1) obtain f fs where flds: "flds = f # fs" by (cases flds) auto
  have "list_all (\<lambda>g. CHR ''|'' \<notin> set g) (f # fs)"
    using assms(2) isField_no_bar unfolding flds list_all_iff by blast
  then show ?thesis
    by (simp only: flds splitLine_def TrimSuffix_println joinFields_Cons Split_joined)
qed

lemma line_minus_5: "\<not> MatchString expectedLinePattern (println ''-5'')"
  by (simp add: println_def) code_simp

lemma line_minus_5_serial_go: "MatchString expectedLinePattern_serial_go (println ''-5'')"
  by (simp add: println_def) code_simp

lemma handleLine_zero:
  "handleLine ideal_deej NewSerialIO_line (println ''0'') =
     Inr (NewSerialIO_line\<lparr>lastKnownNumSliders := 1, currentSliderPercentValues := [0]\<rparr>,
          [\<lparr> SliderID = 0, PercentValue = 0 \<rparr>], [])"
proof -
  have "MatchString expectedLinePattern (println ''0'')"
    by (simp add: println_def) code_simp
  moreover have "splitLine (println ''0'') = [''0'']"
    by (simp add: println_def splitLine_def TrimSuffix_def CR_def LF_def)
  ultimately show ?thesis
    by (simp add: handleLine_def) (simp add: ideal_line_run)
qed

section \<open>The state between frames is kept\<close>

lemma countSliders_keeps_slidersKnown:
  "slidersKnown sio \<Longrightarrow> slidersKnown (countSliders d n sio)"
  by (auto simp add: slidersKnown_def countSliders_def length_resetVolumeDatas)

lemma handleBytes_keeps_slidersKnown:
  assumes "slidersKnown sio" and "handleBytes d sio bytes = Inr (sio', evs, sends)"
  shows "slidersKnown sio'"
proof (cases "even (length bytes)")
  case False
  with assms(2) show ?thesis by (simp add: handleBytes_odd)
next
  case True
  let ?n = "length (frameWords bytes)"
  from handleBytes_result [of bytes sio d] True assms(1) obtain s es where
    run: "handleBytes d sio bytes = Inr (s, es, deliver (sliderMoveConsumers sio) es)"
    and count: "lastKnownNumSliders s = int ?n"
    and len: "length (currentVolumeDatas s) = length (currentVolumeDatas (countSliders d ?n sio))"
    by blast
  from run assms(2) have s: "s = sio'" by simp
  have "slidersKnown (countSliders d ?n sio)"
    using assms(1) by (rule countSliders_keeps_slidersKnown)
  moreover have "lastKnownNumSliders (countSliders d ?n sio) = int ?n"
    by (simp add: countSliders_def)
  ultimately show ?thesis
    using count len unfolding s slidersKnown_def by simp
qed

lemma countSliders_line_keeps_slidersKnown:
  "slidersKnown_line sio \<Longrightarrow> slidersKnown_line (countSliders_line d n sio)"
  by (auto simp add: slidersKnown_line_def countSliders_line_def)

lemma handleLine_keeps_slidersKnown:
  assumes "slidersKnown_line sio" and "handleLine d sio line = Inr (sio', evs, sends)"
  shows "slidersKnown_line sio'"
proof (cases "MatchString expectedLinePattern line")
  case False
  with assms show ?thesis by (simp add: handleLine_no_match)
next
  case True
  let ?n = "length (splitLine line)"
  show ?thesis
  proof (cases "fst (Atoi (hd (splitLine line))) \<le> 1023")
    case False
    then have "handleLine d sio line = Inr (countSliders_line d ?n sio, [], [])"
      using handleLine_dropped [OF True, of d sio] by simp
    with assms(2) have "sio' = countSliders_line d ?n sio" by simp
    with assms(1) show ?thesis
      by (simp add: countSliders_line_keeps_slidersKnown)
  next
    case le: True
    from handleLine_result [of line sio d] True le assms(1) obtain s es where
      run: "handleLine d sio line = Inr (s, es, deliver (sliderMoveConsumers sio) es)"
      and count: "lastKnownNumSliders s = int ?n"
      and len: "length (currentSliderPercentValues s) =
                length (currentSliderPercentValues (countSliders_line d ?n sio))"
      by blast
    from run assms(2) have s: "s = sio'" by simp
    have "slidersKnown_line (countSliders_line d ?n sio)"
      using assms(1) by (rule countSliders_line_keeps_slidersKnown)
    moreover have "lastKnownNumSliders (countSliders_line d ?n sio) = int ?n"
      by (simp add: countSliders_line_def)
    ultimately show ?thesis
      using count len unfolding s slidersKnown_line_def by simp
  qed
qed

section \<open>Claims\<close>

text \<open>
  C1 (as amended). A frame of one channel word \<open>hi, lo\<close> decodes to one reading. The
  word is big-endian (\<open>256 * hi + lo\<close>). Bit 11 is the toggle-mute flag. Bits 0 to 10
  hold the value: when bit 10 is set it is the low eleven bits OR-ed with \<open>0xF800\<close>
  and read as a signed 16-bit integer, which is the low eleven bits minus 2048;
  otherwise it is the low eleven bits themselves. So \<open>0x0000\<close> gives no toggle and
  value 0, \<open>0x0800\<close> gives toggle and value 0, \<open>0x03FF\<close> gives 1023, \<open>0x0400\<close>
  gives -1024, and \<open>0x07FF\<close>, whose bit 10 is set, gives -1.
\<close>

theorem C1_decodeWord_layout:
  "decodeFrom [hi, lo] 0 [] = Inr [decodeWord hi lo] \<and>
   uint (packWord hi lo) = 256 * uint hi + uint lo \<and>
   ad_ToggleMute (decodeWord hi lo) = bit (packWord hi lo) 11 \<and>
   ad_Value (decodeWord hi lo) =
     (if bit (packWord hi lo) 10
      then sint ((packWord hi lo AND 0x07FF) OR 0xF800)
      else uint (packWord hi lo AND 0x07FF)) \<and>
   ad_Value (decodeWord hi lo) =
     (if bit (packWord hi lo) 10
      then uint (packWord hi lo) mod 2048 - 2048
      else uint (packWord hi lo) mod 2048) \<and>
   decodeWord 0x00 0x00 = \<lparr> ad_Value = 0, ad_ToggleMute = False \<rparr> \<and>
   decodeWord 0x08 0x00 = \<lparr> ad_Value = 0, ad_ToggleMute = True \<rparr> \<and>
   decodeWord 0x03 0xFF = \<lparr> ad_Value = 1023, ad_ToggleMute = False \<rparr> \<and>
   decodeWord 0x04 0x00 = \<lparr> ad_Value = - 1024, ad_ToggleMute = False \<rparr> \<and>
   decodeWord 0x07 0xFF = \<lparr> ad_Value = - 1, ad_ToggleMute = False \<rparr>"
proof -
  have examples:
    "decodeWord 0x00 0x00 = \<lparr> ad_Value = 0, ad_ToggleMute = False \<rparr>"
    "decodeWord 0x08 0x00 = \<lparr> ad_Value = 0, ad_ToggleMute = True \<rparr>"
    "decodeWord 0x03 0xFF = \<lparr> ad_Value = 1023, ad_ToggleMute = False \<rparr>"
    "decodeWord 0x04 0x00 = \<lparr> ad_Value = - 1024, ad_ToggleMute = False \<rparr>"
    "decodeWord 0x07 0xFF = \<lparr> ad_Value = - 1, ad_ToggleMute = False \<rparr>"
    by (simp_all add: decodeWord_def packWord_def)
  show ?thesis
    using decodeFrom_one_word [of hi lo] uint_packWord [of hi lo] decodeWord_ToggleMute [of hi lo]
      decodeWord_Value [of hi lo] decodeWord_Value_int [of hi lo] examples
    by (intro conjI) (simp_all only:)
qed

text \<open>
  The claim as stated fails at the word \<open>0x07FF\<close>: the frame \<open>0x07 0xFF\<close> decodes to
  the value -1, not 1023.
\<close>

theorem C1_counterexample_0x07FF:
  "decodeFrom [0x07, 0xFF] 0 [] = Inr [\<lparr> ad_Value = - 1, ad_ToggleMute = False \<rparr>] \<and>
   ad_Value (decodeWord 0x07 0xFF) \<noteq> 1023"
  by (simp add: decodeFrom.simps decodeWord_def packWord_def)

text \<open>
  C2 (the code departs from the claim). A frame of odd length does not decode over its
  even prefix: the decoding loop runs while \<open>i < len(bytes)\<close> and reads
  \<open>bytes[i+1]\<close>, so at the dangling byte it reads one past the end and
  \<open>handleBytes\<close> ends in Go's index-out-of-range panic, with no reading
  produced and no event.
\<close>

theorem C2_odd_frame_panics:
  "odd (length bytes) \<Longrightarrow> handleBytes d sio bytes = Inl IndexOutOfRange"
  by (rule handleBytes_odd)

theorem C2_odd_frame_witness:
  "odd (length [0x00 :: byte]) \<and>
   handleBytes ideal_deej NewSerialIO [0x00] = Inl IndexOutOfRange \<and>
   odd (length [0x00 :: byte, 0x05, 0x00]) \<and>
   handleBytes ideal_deej NewSerialIO [0x00, 0x05, 0x00] = Inl IndexOutOfRange"
  using C2_odd_frame_panics [of "[0x00]" ideal_deej NewSerialIO]
    C2_odd_frame_panics [of "[0x00, 0x05, 0x00]" ideal_deej NewSerialIO]
  by simp

text \<open>
  C6 (the code departs from the claim). In \<open>readBytes\<close> of serial.go the
  \<open>return\<close> stands inside the test of \<open>Verbose\<close>: with verbose logging
  off, a read error does not end the loop. The bytes read before the error are sent
  on as a unit (without their last byte) and the loop reads again; when the failed
  read returned no bytes, the slice expression panics. With verbose logging on
  the loop ends without a unit, as it does in \<open>readLine\<close> of part_000 whatever
  the verbosity.
\<close>

theorem C6_readBytes_goes_on:
  "(\<not> Verbose d \<and> bytes \<noteq> [] \<longrightarrow>
      readBytes d ((bytes, Some err) # reads) =
        (take (length bytes - 1) bytes # fst (readBytes d reads), snd (readBytes d reads))) \<and>
   (\<not> Verbose d \<longrightarrow>
      readBytes d (([], Some err) # reads) = ([], Panicked SliceBoundsOutOfRange)) \<and>
   (Verbose d \<longrightarrow> readBytes d ((bytes, Some err) # reads) = ([], Returned)) \<and>
   readLine d ((line, Some err) # reads_line) = ([], Returned)"
  by (simp add: split_beta)

text \<open>
  A reader that fails with two bytes read and then delivers a frame: without
  verbose logging two units are sent, the first cut from the failed read; with
  verbose logging none. A failed read with no bytes makes the loop panic.
\<close>

theorem C6_read_error_witness:
  "\<not> Verbose ideal_deej \<and>
   readBytes ideal_deej
     [([0x00, 0x05], Some (ErrorsNew ''EOF'')), ([0x00, 0x07, 0x0A], None)] =
     ([[0x00], [0x00, 0x07]], Waiting) \<and>
   readBytes ideal_deej [([], Some (ErrorsNew ''EOF''))] = ([], Panicked SliceBoundsOutOfRange) \<and>
   Verbose (ideal_deej\<lparr>Verbose := True\<rparr>) \<and>
   readBytes (ideal_deej\<lparr>Verbose := True\<rparr>)
     [([0x00, 0x05], Some (ErrorsNew ''EOF'')), ([0x00, 0x07, 0x0A], None)] = ([], Returned) \<and>
   readLine ideal_deej [(''12'', Some (ErrorsNew ''EOF'')), (println ''3|4'', None)] =
     ([], Returned)"
proof -
  have quiet: "\<not> Verbose ideal_deej" and loud: "Verbose (ideal_deej\<lparr>Verbose := True\<rparr>)"
    by (simp_all add: ideal_deej_def)
  have rest: "readBytes ideal_deej [([0x00, 0x07, 0x0A], None)] = ([[0x00, 0x07]], Waiting)"
    by simp
  note off = C6_readBytes_goes_on [of ideal_deej _ "ErrorsNew ''EOF''" _ "''12''"
      "[(println ''3|4'', None)]"]
  note on = C6_readBytes_goes_on [of "ideal_deej\<lparr>Verbose := True\<rparr>" "[0x00, 0x05]"
      "ErrorsNew ''EOF''" "[([0x00, 0x07, 0x0A], None)]"]
  have a: "readBytes ideal_deej
     [([0x00, 0x05], Some (ErrorsNew ''EOF'')), ([0x00, 0x07, 0x0A], None)] =
     ([[0x00], [0x00, 0x07]], Waiting)"
    using off [of "[0x00, 0x05]" "[([0x00, 0x07, 0x0A], None)]"] quiet rest by simp
  have b: "readBytes ideal_deej [([], Some (ErrorsNew ''EOF''))] = ([], Panicked SliceBoundsOutOfRange)"
    using off [of "[]" "[]"] quiet by blast
  have c: "readBytes (ideal_deej\<lparr>Verbose := True\<rparr>)
     [([0x00, 0x05], Some (ErrorsNew ''EOF'')), ([0x00, 0x07, 0x0A], None)] = ([], Returned)"
    using on loud by blast
  have e: "readLine ideal_deej [(''12'', Some (ErrorsNew ''EOF'')), (println ''3|4'', None)] =
     ([], Returned)"
    using off [of "[]" "[]"] by blast
  show ?thesis
    by (intro conjI quiet a b loud c e)
qed

text \<open>
  C9. \<open>Start\<close> on a state whose \<open>connected\<close> flag is set returns the error
  "serial: connection already active" and leaves every field of the state as it
  was, in both versions.
\<close>

theorem C9_Start_while_connected:
  "(connected sio \<longrightarrow>
      Start d sio = (sio, Some (ErrorsNew ''serial: connection already active''))) \<and>
   (connected sio_line \<longrightarrow>
      Start_line d sio_line =
        (sio_line, Some (ErrorsNew ''serial: connection already active'')))"
  by (simp add: Start_def Start_line_def)

theorem C9_Start_twice_witness:
  "connected (fst (Start ideal_deej NewSerialIO)) \<and>
   snd (Start ideal_deej NewSerialIO) = None \<and>
   conn (fst (Start ideal_deej NewSerialIO)) = Some 3 \<and>
   Start ideal_deej (fst (Start ideal_deej NewSerialIO)) =
     (fst (Start ideal_deej NewSerialIO), Some (ErrorsNew ''serial: connection already active'')) \<and>
   connected (fst (Start_line ideal_deej NewSerialIO_line)) \<and>
   Start_line ideal_deej (fst (Start_line ideal_deej NewSerialIO_line)) =
     (fst (Start_line ideal_deej NewSerialIO_line),
      Some (ErrorsNew ''serial: connection already active''))"
proof -
  have c: "connected (fst (Start ideal_deej NewSerialIO))"
    "snd (Start ideal_deej NewSerialIO) = None"
    "conn (fst (Start ideal_deej NewSerialIO)) = Some 3"
    by (simp_all add: Start_def NewSerialIO_def ideal_deej_def Let_def)
  have cl: "connected (fst (Start_line ideal_deej NewSerialIO_line))"
    by (simp add: Start_line_def NewSerialIO_line_def ideal_deej_def Let_def)
  show ?thesis
    using c cl
      C9_Start_while_connected [of "fst (Start ideal_deej NewSerialIO)" ideal_deej
        "fst (Start_line ideal_deej NewSerialIO_line)"]
    by blast
qed

text \<open>
  C10. In \<open>handleBytes\<close>, for a frame of whole words processed from a state
  between frames, every event the frame produces belongs to one channel of the
  frame, and the stored mute flag of that channel is the negation of what it was
  when the loop began (after the slice was reset, if the channel count changed),
  whether or not the reading's toggle-mute flag is set. A channel's mute flag
  changes exactly when the frame produces an event for it.
\<close>

theorem C10_every_event_flips_mute:
  assumes "even (length bytes)" and "slidersKnown sio"
  shows "\<exists>sio' sliderEvents sends.
           handleBytes d sio bytes = Inr (sio', sliderEvents, sends) \<and>
           (\<forall>e\<in>set sliderEvents. \<exists>i<length (frameWords bytes).
              SliderID e = int i \<and>
              ToggleMute e = ad_ToggleMute (frameWords bytes ! i) \<and>
              vd_Mute (currentVolumeDatas sio' ! i) =
                (\<not> vd_Mute (currentVolumeDatas (countSliders d (length (frameWords bytes)) sio) ! i))) \<and>
           (\<forall>i<length (frameWords bytes).
              (\<exists>e\<in>set sliderEvents. SliderID e = int i) =
                (vd_Mute (currentVolumeDatas sio' ! i) \<noteq>
                 vd_Mute (currentVolumeDatas (countSliders d (length (frameWords bytes)) sio) ! i)))"
proof -
  let ?data = "frameWords bytes"
  let ?vols = "currentVolumeDatas (countSliders d (length ?data) sio)"
  from handleBytes_result [of bytes sio d] assms obtain sio' evs where
    run: "handleBytes d sio bytes = Inr (sio', evs, deliver (sliderMoveConsumers sio) evs)"
    and evs: "set evs = {sliderEvent d i (?data ! i) | i.
                 i < length ?data \<and> sliderMoves d (?vols ! i) i (?data ! i)}"
    and nth: "\<forall>j<length ?data. currentVolumeDatas sio' ! j =
              (if sliderMoves d (?vols ! j) j (?data ! j)
               then movedVolume d (?vols ! j) j (?data ! j) else ?vols ! j)"
    by blast
  have flips: "\<exists>i<length ?data. SliderID e = int i \<and> ToggleMute e = ad_ToggleMute (?data ! i) \<and>
                 vd_Mute (currentVolumeDatas sio' ! i) = (\<not> vd_Mute (?vols ! i))"
    if "e \<in> set evs" for e
  proof -
    from that evs obtain i where i: "i < length ?data" "sliderMoves d (?vols ! i) i (?data ! i)"
      and e: "e = sliderEvent d i (?data ! i)"
      by auto
    from nth i have "vd_Mute (currentVolumeDatas sio' ! i) = (\<not> vd_Mute (?vols ! i))"
      by (simp add: vd_Mute_movedVolume)
    with i e show ?thesis
      by (auto simp add: SliderID_sliderEvent ToggleMute_sliderEvent)
  qed
  have iff: "(\<exists>e\<in>set evs. SliderID e = int i) =
               (vd_Mute (currentVolumeDatas sio' ! i) \<noteq> vd_Mute (?vols ! i))"
    if i: "i < length ?data" for i
  proof (cases "sliderMoves d (?vols ! i) i (?data ! i)")
    case True
    with i evs have "sliderEvent d i (?data ! i) \<in> set evs" by auto
    then have "\<exists>e\<in>set evs. SliderID e = int i"
      by (auto simp add: SliderID_sliderEvent intro!: bexI [of _ "sliderEvent d i (?data ! i)"])
    moreover from nth i True
    have "vd_Mute (currentVolumeDatas sio' ! i) \<noteq> vd_Mute (?vols ! i)"
      by (simp add: vd_Mute_movedVolume)
    ultimately show ?thesis by simp
  next
    case False
    have "\<not> (\<exists>e\<in>set evs. SliderID e = int i)"
    proof
      assume "\<exists>e\<in>set evs. SliderID e = int i"
      then obtain k where "k < length ?data" "sliderMoves d (?vols ! k) k (?data ! k)"
        and "SliderID (sliderEvent d k (?data ! k)) = int i"
        using evs by auto
      then have "k = i" by (simp add: SliderID_sliderEvent)
      with \<open>sliderMoves d (?vols ! k) k (?data ! k)\<close> False show False by simp
    qed
    moreover from nth i False
    have "vd_Mute (currentVolumeDatas sio' ! i) = vd_Mute (?vols ! i)" by simp
    ultimately show ?thesis by simp
  qed
  show ?thesis
    using run flips iff by blast
qed

text \<open>
  The frame \<open>0x00 0x00\<close> on a fresh state: the reading has no toggle-mute flag, the
  value 0 differs from the sentinel, an event with \<open>ToggleMute = False\<close> is produced
  and the stored mute flag goes from false to true.
\<close>

theorem C10_value_change_flips_mute_witness:
  "even (length [0x00 :: byte, 0x00]) \<and> slidersKnown (NewSerialIO :: real SerialIO) \<and>
   (\<exists>sio'. handleBytes ideal_deej NewSerialIO [0x00, 0x00] =
              Inr (sio', [\<lparr> SliderID = 0, PercentValue = 0, ToggleMute = False \<rparr>], []) \<and>
            vd_Mute (currentVolumeDatas sio' ! 0) \<and>
            \<not> vd_Mute (currentVolumeDatas (countSliders ideal_deej 1 NewSerialIO) ! 0))"
proof -
  have known: "slidersKnown (NewSerialIO :: real SerialIO)"
    by (simp add: slidersKnown_def NewSerialIO_def)
  have fw: "length (frameWords [0x00 :: byte, 0x00]) = 1"
    by (simp add: frameWords_def)
  have before: "\<not> vd_Mute (currentVolumeDatas (countSliders ideal_deej 1 NewSerialIO) ! 0)"
    by (simp add: countSliders_def NewSerialIO_def resetVolumeDatas_def)
  from C10_every_event_flips_mute [of "[0x00, 0x00]" NewSerialIO ideal_deej] known
  obtain sio' evs sends where
    run: "handleBytes ideal_deej NewSerialIO [0x00, 0x00] = Inr (sio', evs, sends)"
    and flip: "\<forall>e\<in>set evs. \<exists>i<length (frameWords [0x00 :: byte, 0x00]).
              SliderID e = int i \<and>
              ToggleMute e = ad_ToggleMute (frameWords [0x00 :: byte, 0x00] ! i) \<and>
              vd_Mute (currentVolumeDatas sio' ! i) =
                (\<not> vd_Mute (currentVolumeDatas
                     (countSliders ideal_deej (length (frameWords [0x00 :: byte, 0x00])) NewSerialIO) ! i))"
    by auto
  from run handleBytes_zero_frame
  have evs: "evs = [\<lparr> SliderID = 0, PercentValue = 0, ToggleMute = False \<rparr>]" and "sends = []"
    by simp_all
  with flip fw before have "vd_Mute (currentVolumeDatas sio' ! 0)"
    by simp
  with run evs \<open>sends = []\<close> before known show ?thesis
    by simp
qed

text \<open>
  C3 (as amended). In \<open>handleLine\<close>, a line that matches the pattern and whose
  first number is greater than 1023 produces no event and no send, and the loop
  body is left before any per-channel value is compared or stored. The channel
  count has been handled before: when the line has as many fields as the last
  known count the state is unchanged, otherwise the count is set to the number
  of fields and every stored value to -1.0. In \<open>handleBytes\<close> no reading is
  greater than 1023, so its copy of the check drops no frame.
\<close>

theorem C3_first_value_above_1023:
  "(MatchString expectedLinePattern line \<and> fst (Atoi (hd (splitLine line))) > 1023 \<longrightarrow>
      handleLine d sio_line line =
        Inr (countSliders_line d (length (splitLine line)) sio_line, [], []) \<and>
      (int (length (splitLine line)) = lastKnownNumSliders sio_line \<longrightarrow>
         handleLine d sio_line line = Inr (sio_line, [], [])) \<and>
      (int (length (splitLine line)) \<noteq> lastKnownNumSliders sio_line \<longrightarrow>
         handleLine d sio_line line =
           Inr (sio_line\<lparr>lastKnownNumSliders := int (length (splitLine line)),
                         currentSliderPercentValues :=
                           replicate (length (splitLine line)) (f32 d (- 1))\<rparr>, [], []))) \<and>
   (\<forall>a\<in>set (frameWords bytes). ad_Value a \<le> 1023)"
  using handleLine_dropped [of line d sio_line]
    countSliders_line_same [of "length (splitLine line)" sio_line d]
    countSliders_line_reset [of "length (splitLine line)" sio_line d]
    frameWords_Value_le [of _ bytes]
  by auto

text \<open>The line \<open>4558|925\<close> on a state that knows two sliders: nothing changes.\<close>

theorem C3_same_count_witness:
  "MatchString expectedLinePattern (println ''4558|925'') \<and>
   fst (Atoi (hd (splitLine (println ''4558|925'')))) > 1023 \<and>
   handleLine ideal_deej
     (NewSerialIO_line\<lparr>lastKnownNumSliders := 2, currentSliderPercentValues := [1 / 2, 1]\<rparr>)
     (println ''4558|925'') =
     Inr (NewSerialIO_line\<lparr>lastKnownNumSliders := 2, currentSliderPercentValues := [1 / 2, 1]\<rparr>,
          [], []) \<and>
   ad_Value (decodeWord 0x03 0xFF) \<le> 1023"
proof -
  let ?sio = "(NewSerialIO_line :: real SerialIO_line)\<lparr>lastKnownNumSliders := 2, currentSliderPercentValues := [1 / 2, 1]\<rparr>"
  have big: "fst (Atoi (hd (splitLine (println ''4558|925'')))) > 1023"
    by (simp add: splitLine_4558 Atoi_4558)
  have same: "int (length (splitLine (println ''4558|925''))) = lastKnownNumSliders ?sio"
    by (simp add: splitLine_4558)
  have fw: "decodeWord 0x03 0xFF \<in> set (frameWords [0x03, 0xFF])"
    by (simp add: frameWords_def)
  show ?thesis
    using C3_first_value_above_1023 [of "println ''4558|925''" ideal_deej ?sio "[0x03, 0xFF]"]
      line_4558 big same fw
    by blast
qed

text \<open>
  The claim as stated fails on a fresh state: the same line, dropped for its first
  number 4558, has set the channel count to 2 and allocated two stored values.
\<close>

theorem C3_counterexample_new_count:
  "MatchString expectedLinePattern (println ''4558|925'') \<and>
   fst (Atoi (hd (splitLine (println ''4558|925'')))) = 4558 \<and>
   handleLine ideal_deej NewSerialIO_line (println ''4558|925'') =
     Inr (NewSerialIO_line\<lparr>lastKnownNumSliders := 2, currentSliderPercentValues := [- 1, - 1]\<rparr>,
          [], []) \<and>
   lastKnownNumSliders (NewSerialIO_line :: real SerialIO_line) = 0 \<and>
   currentSliderPercentValues (NewSerialIO_line :: real SerialIO_line) = [] \<and>
   NewSerialIO_line\<lparr>lastKnownNumSliders := 2, currentSliderPercentValues := [- 1, - 1]\<rparr> \<noteq>
     (NewSerialIO_line :: real SerialIO_line)"
proof -
  have "handleLine ideal_deej NewSerialIO_line (println ''4558|925'') =
     Inr (NewSerialIO_line\<lparr>lastKnownNumSliders := 2, currentSliderPercentValues := [- 1, - 1]\<rparr>,
          [], [])"
    using handleLine_dropped [of "println ''4558|925''" ideal_deej NewSerialIO_line] line_4558
    by (simp add: splitLine_4558 Atoi_4558 countSliders_line_def NewSerialIO_line_def
        ideal_deej_def numeral_2_eq_2)
  moreover have "NewSerialIO_line\<lparr>lastKnownNumSliders := 2, currentSliderPercentValues := [- 1, - 1]\<rparr> \<noteq>
     (NewSerialIO_line :: real SerialIO_line)"
    by (simp add: NewSerialIO_line_def)
  ultimately show ?thesis
    using line_4558 by (simp add: splitLine_4558 Atoi_4558 NewSerialIO_line_def)
qed

text \<open>
  C5 (as amended). A frame whose channel count differs from the last known count
  makes the handler, before it compares anything, set the count to the new one
  and replace the per-channel state by a slice of the new length whose every
  value is -1.0 (and, in \<open>handleBytes\<close>, whose every mute flag is false). The
  same frame then produces exactly one event per channel, in ascending channel
  order, provided the frame is not dropped (in \<open>handleLine\<close>, its first number
  is at most 1023) and \<open>SignificantlyDifferent\<close> reports every new value as
  different from -1.0 (in \<open>handleBytes\<close>, or the reading has its toggle-mute
  flag set). \<open>handleBytes\<close> is taken on a frame of whole words, \<open>handleLine\<close>
  on a line that matches the pattern.
\<close>

theorem C5_new_count_resets_and_reports:
  "(even (length bytes) \<and>
    int (length (frameWords bytes)) \<noteq> lastKnownNumSliders sio \<and>
    (\<forall>i<length (frameWords bytes).
        SignificantlyDifferent d (f32 d (- 1))
          (sliderValue d i (ad_Value (frameWords bytes ! i))) (NoiseReductionLevel d) \<or>
        ad_ToggleMute (frameWords bytes ! i)) \<longrightarrow>
      countSliders d (length (frameWords bytes)) sio =
        sio\<lparr>lastKnownNumSliders := int (length (frameWords bytes)),
            currentVolumeDatas :=
              replicate (length (frameWords bytes)) \<lparr> vd_Value = f32 d (- 1), vd_Mute = False \<rparr>\<rparr> \<and>
      (\<exists>sio' sends.
         handleBytes d sio bytes =
           Inr (sio', map (\<lambda>i. sliderEvent d i (frameWords bytes ! i)) [0..<length (frameWords bytes)],
                sends) \<and>
         lastKnownNumSliders sio' = int (length (frameWords bytes)) \<and>
         length (currentVolumeDatas sio') = length (frameWords bytes))) \<and>
   (MatchString expectedLinePattern line \<and>
    fst (Atoi (hd (splitLine line))) \<le> 1023 \<and>
    int (length (splitLine line)) \<noteq> lastKnownNumSliders sio_line \<and>
    (\<forall>i<length (splitLine line).
        SignificantlyDifferent d (f32 d (- 1)) (lineValue d (splitLine line ! i))
          (NoiseReductionLevel d)) \<longrightarrow>
      countSliders_line d (length (splitLine line)) sio_line =
        sio_line\<lparr>lastKnownNumSliders := int (length (splitLine line)),
                 currentSliderPercentValues := replicate (length (splitLine line)) (f32 d (- 1))\<rparr> \<and>
      (\<exists>sio' sends.
         handleLine d sio_line line =
           Inr (sio', map (\<lambda>i. moveEvent d i (splitLine line ! i)) [0..<length (splitLine line)],
                sends) \<and>
         lastKnownNumSliders sio' = int (length (splitLine line)) \<and>
         length (currentSliderPercentValues sio') = length (splitLine line)))"
proof (intro conjI impI)
  let ?data = "frameWords bytes"
  let ?n = "length ?data"
  assume a: "even (length bytes) \<and> int ?n \<noteq> lastKnownNumSliders sio \<and>
    (\<forall>i<?n. SignificantlyDifferent d (f32 d (- 1)) (sliderValue d i (ad_Value (?data ! i)))
                (NoiseReductionLevel d) \<or> ad_ToggleMute (?data ! i))"
  then have even: "even (length bytes)" and new: "int ?n \<noteq> lastKnownNumSliders sio"
    and sig: "\<forall>i<?n. SignificantlyDifferent d (f32 d (- 1)) (sliderValue d i (ad_Value (?data ! i)))
                (NoiseReductionLevel d) \<or> ad_ToggleMute (?data ! i)"
    by blast+
  show reset: "countSliders d ?n sio =
        sio\<lparr>lastKnownNumSliders := int ?n,
            currentVolumeDatas := replicate ?n \<lparr> vd_Value = f32 d (- 1), vd_Mute = False \<rparr>\<rparr>"
    using new by (rule countSliders_reset)
  have moves: "\<forall>i<?n. sliderMoves d (currentVolumeDatas (countSliders d ?n sio) ! i) i (?data ! i)"
    using sig by (simp add: reset sliderMoves_def)
  have len: "length (currentVolumeDatas (countSliders d ?n sio)) = ?n"
    by (simp add: reset)
  from handleBytes_result [of bytes sio d] even new moves len
  show "\<exists>sio' sends.
         handleBytes d sio bytes =
           Inr (sio', map (\<lambda>i. sliderEvent d i (?data ! i)) [0..<?n], sends) \<and>
         lastKnownNumSliders sio' = int ?n \<and> length (currentVolumeDatas sio') = ?n"
    by (metis (no_types, lifting))
next
  let ?data = "splitLine line"
  let ?n = "length ?data"
  assume a: "MatchString expectedLinePattern line \<and> fst (Atoi (hd ?data)) \<le> 1023 \<and>
    int ?n \<noteq> lastKnownNumSliders sio_line \<and>
    (\<forall>i<?n. SignificantlyDifferent d (f32 d (- 1)) (lineValue d (?data ! i)) (NoiseReductionLevel d))"
  then have match: "MatchString expectedLinePattern line" and first: "fst (Atoi (hd ?data)) \<le> 1023"
    and new: "int ?n \<noteq> lastKnownNumSliders sio_line"
    and sig: "\<forall>i<?n. SignificantlyDifferent d (f32 d (- 1)) (lineValue d (?data ! i)) (NoiseReductionLevel d)"
    by blast+
  show reset: "countSliders_line d ?n sio_line =
        sio_line\<lparr>lastKnownNumSliders := int ?n,
                 currentSliderPercentValues := replicate ?n (f32 d (- 1))\<rparr>"
    using new by (rule countSliders_line_reset)
  have moves: "\<forall>i<?n. lineMoves d (currentSliderPercentValues (countSliders_line d ?n sio_line) ! i) (?data ! i)"
    using sig by (simp add: reset lineMoves_def)
  have len: "length (currentSliderPercentValues (countSliders_line d ?n sio_line)) = ?n"
    by (simp add: reset)
  from handleLine_result [of line sio_line d] match first new moves len
  show "\<exists>sio' sends.
         handleLine d sio_line line =
           Inr (sio', map (\<lambda>i. moveEvent d i (?data ! i)) [0..<?n], sends) \<and>
         lastKnownNumSliders sio' = int ?n \<and> length (currentSliderPercentValues sio') = ?n"
    by (metis (no_types, lifting))
qed

text \<open>
  Two sliders reported for the first time, with readings 0 and 1023, in either
  protocol: two events, for slider 0 and slider 1.
\<close>

theorem C5_two_sliders_witness:
  "even (length [0x00 :: byte, 0x00, 0x03, 0xFF]) \<and>
   int (length (frameWords [0x00, 0x00, 0x03, 0xFF])) \<noteq>
     lastKnownNumSliders (NewSerialIO :: real SerialIO) \<and>
   SignificantlyDifferent ideal_deej (f32 ideal_deej (- 1))
     (sliderValue ideal_deej 0 (ad_Value (frameWords [0x00, 0x00, 0x03, 0xFF] ! 0)))
     (NoiseReductionLevel ideal_deej) \<and>
   SignificantlyDifferent ideal_deej (f32 ideal_deej (- 1))
     (sliderValue ideal_deej 1 (ad_Value (frameWords [0x00, 0x00, 0x03, 0xFF] ! 1)))
     (NoiseReductionLevel ideal_deej) \<and>
   countSliders ideal_deej 2 NewSerialIO =
     NewSerialIO\<lparr>lastKnownNumSliders := 2,
                 currentVolumeDatas := [\<lparr> vd_Value = - 1, vd_Mute = False \<rparr>,
                                        \<lparr> vd_Value = - 1, vd_Mute = False \<rparr>]\<rparr> \<and>
   (\<exists>sio' sends. handleBytes ideal_deej NewSerialIO [0x00, 0x00, 0x03, 0xFF] =
      Inr (sio', [\<lparr> SliderID = 0, PercentValue = 0, ToggleMute = False \<rparr>,
                  \<lparr> SliderID = 1, PercentValue = 1, ToggleMute = False \<rparr>], sends) \<and>
      lastKnownNumSliders sio' = 2 \<and> length (currentVolumeDatas sio') = 2) \<and>
   MatchString expectedLinePattern (println ''0|1023'') \<and>
   fst (Atoi (hd (splitLine (println ''0|1023'')))) \<le> 1023 \<and>
   (\<exists>sio' sends. handleLine ideal_deej NewSerialIO_line (println ''0|1023'') =
      Inr (sio', [\<lparr> SliderID = 0, PercentValue = 0 \<rparr>, \<lparr> SliderID = 1, PercentValue = 1 \<rparr>], sends) \<and>
      lastKnownNumSliders sio' = 2 \<and> length (currentSliderPercentValues sio') = 2)"
proof -
  let ?bytes = "[0x00 :: byte, 0x00, 0x03, 0xFF]"
  let ?line = "println ''0|1023''"
  have fw: "frameWords ?bytes =
              [\<lparr> ad_Value = 0, ad_ToggleMute = False \<rparr>, \<lparr> ad_Value = 1023, ad_ToggleMute = False \<rparr>]"
    by (simp add: frameWords_two decodeWord_def packWord_def)
  have new: "int (length (frameWords ?bytes)) \<noteq> lastKnownNumSliders (NewSerialIO :: real SerialIO)"
    by (simp add: fw NewSerialIO_def)
  have sig0: "SignificantlyDifferent ideal_deej (f32 ideal_deej (- 1))
     (sliderValue ideal_deej 0 (ad_Value (frameWords ?bytes ! 0))) (NoiseReductionLevel ideal_deej)"
    and sig1: "SignificantlyDifferent ideal_deej (f32 ideal_deej (- 1))
     (sliderValue ideal_deej 1 (ad_Value (frameWords ?bytes ! 1))) (NoiseReductionLevel ideal_deej)"
    by (simp_all add: fw ideal_deej_def sliderValue_def normalizedScalar_def NormalizeScalar_spec_def
        SignificantlyDifferent_spec_def)
  have sig: "\<forall>i<length (frameWords ?bytes).
        SignificantlyDifferent ideal_deej (f32 ideal_deej (- 1))
          (sliderValue ideal_deej i (ad_Value (frameWords ?bytes ! i))) (NoiseReductionLevel ideal_deej) \<or>
        ad_ToggleMute (frameWords ?bytes ! i)"
    using sig0 sig1 by (simp add: fw less_Suc_eq)
  have fields: "splitLine ?line = [''0'', ''1023'']"
    by (rule splitLine_0_1023)
  have first: "fst (Atoi (hd (splitLine ?line))) \<le> 1023"
    by (simp add: fields Atoi_def decimal_def isDigit_def)
  have new_line: "int (length (splitLine ?line)) \<noteq> lastKnownNumSliders (NewSerialIO_line :: real SerialIO_line)"
    by (simp add: fields NewSerialIO_line_def)
  have sig_line: "\<forall>i<length (splitLine ?line).
        SignificantlyDifferent ideal_deej (f32 ideal_deej (- 1)) (lineValue ideal_deej (splitLine ?line ! i))
          (NoiseReductionLevel ideal_deej)"
    by (simp add: fields less_Suc_eq ideal_deej_def lineValue_def normalizedScalar_def
        NormalizeScalar_spec_def SignificantlyDifferent_spec_def Atoi_def decimal_def isDigit_def)
  from C5_new_count_resets_and_reports [of ?bytes NewSerialIO ideal_deej ?line NewSerialIO_line]
    new sig line_0_1023 first new_line sig_line
  have reset: "countSliders ideal_deej (length (frameWords ?bytes)) NewSerialIO =
        NewSerialIO\<lparr>lastKnownNumSliders := int (length (frameWords ?bytes)),
            currentVolumeDatas :=
              replicate (length (frameWords ?bytes))
                \<lparr> vd_Value = f32 ideal_deej (- 1), vd_Mute = False \<rparr>\<rparr>"
    and bin: "\<exists>sio' sends.
         handleBytes ideal_deej NewSerialIO ?bytes =
           Inr (sio', map (\<lambda>i. sliderEvent ideal_deej i (frameWords ?bytes ! i))
                        [0..<length (frameWords ?bytes)], sends) \<and>
         lastKnownNumSliders sio' = int (length (frameWords ?bytes)) \<and>
         length (currentVolumeDatas sio') = length (frameWords ?bytes)"
    and lin: "\<exists>sio' sends.
         handleLine ideal_deej NewSerialIO_line ?line =
           Inr (sio', map (\<lambda>i. moveEvent ideal_deej i (splitLine ?line ! i))
                        [0..<length (splitLine ?line)], sends) \<and>
         lastKnownNumSliders sio' = int (length (splitLine ?line)) \<and>
         length (currentSliderPercentValues sio') = length (splitLine ?line)"
    by simp_all
  have evs: "map (\<lambda>i. sliderEvent ideal_deej i (frameWords ?bytes ! i)) [0..<length (frameWords ?bytes)] =
          [\<lparr> SliderID = 0, PercentValue = 0, ToggleMute = False \<rparr>,
           \<lparr> SliderID = 1, PercentValue = 1, ToggleMute = False \<rparr>]"
    by (simp add: fw upt_rec sliderEvent_def sliderValue_def normalizedScalar_def ideal_deej_def
        NormalizeScalar_spec_def)
  have evs_line: "map (\<lambda>i. moveEvent ideal_deej i (splitLine ?line ! i)) [0..<length (splitLine ?line)] =
          [\<lparr> SliderID = 0, PercentValue = 0 \<rparr>, \<lparr> SliderID = 1, PercentValue = 1 \<rparr>]"
    by (simp add: fields upt_rec moveEvent_def lineValue_def normalizedScalar_def ideal_deej_def
        NormalizeScalar_spec_def Atoi_def decimal_def isDigit_def)
  have reset2: "countSliders ideal_deej 2 NewSerialIO =
     NewSerialIO\<lparr>lastKnownNumSliders := 2,
                 currentVolumeDatas := [\<lparr> vd_Value = - 1, vd_Mute = False \<rparr>,
                                        \<lparr> vd_Value = - 1, vd_Mute = False \<rparr>]\<rparr>"
    using reset by (simp add: fw ideal_deej_def numeral_2_eq_2)
  have bin': "\<exists>sio' sends. handleBytes ideal_deej NewSerialIO ?bytes =
      Inr (sio', [\<lparr> SliderID = 0, PercentValue = 0, ToggleMute = False \<rparr>,
                  \<lparr> SliderID = 1, PercentValue = 1, ToggleMute = False \<rparr>], sends) \<and>
      lastKnownNumSliders sio' = 2 \<and> length (currentVolumeDatas sio') = 2"
    using bin unfolding evs by (simp only: fw list.size) (simp add: numeral_2_eq_2)
  have lin': "\<exists>sio' sends. handleLine ideal_deej NewSerialIO_line ?line =
      Inr (sio', [\<lparr> SliderID = 0, PercentValue = 0 \<rparr>, \<lparr> SliderID = 1, PercentValue = 1 \<rparr>], sends) \<and>
      lastKnownNumSliders sio' = 2 \<and> length (currentSliderPercentValues sio') = 2"
    using lin unfolding evs_line by (simp only: fields list.size) (simp add: numeral_2_eq_2)
  have e: "even (length ?bytes)" by simp
  show ?thesis
    by (intro conjI e new sig0 sig1 reset2 bin' line_0_1023 first lin')
qed

text \<open>
  The claim as stated fails. A line with a new channel count and a first number
  above 1023 resets the state and produces no event. A binary frame with a new
  channel count whose one reading is -1023 resets the state and produces no
  event, the new value being -1.0 like the sentinel. And where "the next
  processed frame" is read as the frame after the one that changed the count:
  the frame \<open>0x00 0x00\<close> on a fresh state produces its event itself, and the
  same frame processed next produces none.
\<close>

theorem C5_counterexample_no_event:
  "MatchString expectedLinePattern (println ''4558|925'') \<and>
   int (length (splitLine (println ''4558|925''))) \<noteq>
     lastKnownNumSliders (NewSerialIO_line :: real SerialIO_line) \<and>
   handleLine ideal_deej NewSerialIO_line (println ''4558|925'') =
     Inr (NewSerialIO_line\<lparr>lastKnownNumSliders := 2, currentSliderPercentValues := [- 1, - 1]\<rparr>,
          [], []) \<and>
   int (length (frameWords [0x04, 0x01])) \<noteq> lastKnownNumSliders (NewSerialIO :: real SerialIO) \<and>
   handleBytes ideal_deej NewSerialIO [0x04, 0x01] =
     Inr (NewSerialIO\<lparr>lastKnownNumSliders := 1,
                      currentVolumeDatas := [\<lparr> vd_Value = - 1, vd_Mute = False \<rparr>]\<rparr>, [], []) \<and>
   handleBytes ideal_deej NewSerialIO [0x00, 0x00] =
     Inr (NewSerialIO\<lparr>lastKnownNumSliders := 1,
                      currentVolumeDatas := [\<lparr> vd_Value = 0, vd_Mute = True \<rparr>]\<rparr>,
          [\<lparr> SliderID = 0, PercentValue = 0, ToggleMute = False \<rparr>], []) \<and>
   handleBytes ideal_deej
     (NewSerialIO\<lparr>lastKnownNumSliders := 1,
                  currentVolumeDatas := [\<lparr> vd_Value = 0, vd_Mute = True \<rparr>]\<rparr>) [0x00, 0x00] =
     Inr (NewSerialIO\<lparr>lastKnownNumSliders := 1,
                      currentVolumeDatas := [\<lparr> vd_Value = 0, vd_Mute = True \<rparr>]\<rparr>, [], [])"
proof -
  have dropped: "handleLine ideal_deej NewSerialIO_line (println ''4558|925'') =
     Inr (NewSerialIO_line\<lparr>lastKnownNumSliders := 2, currentSliderPercentValues := [- 1, - 1]\<rparr>,
          [], [])"
    using handleLine_dropped [of "println ''4558|925''" ideal_deej NewSerialIO_line] line_4558
    by (simp add: splitLine_4558 Atoi_4558 countSliders_line_def NewSerialIO_line_def
        ideal_deej_def numeral_2_eq_2)
  have n1: "int (length (splitLine (println ''4558|925''))) \<noteq>
     lastKnownNumSliders (NewSerialIO_line :: real SerialIO_line)"
    by (simp add: splitLine_4558 NewSerialIO_line_def)
  have n2: "int (length (frameWords [0x04, 0x01])) \<noteq> lastKnownNumSliders (NewSerialIO :: real SerialIO)"
    by (simp add: frameWords_def NewSerialIO_def)
  show ?thesis
    using line_4558 n1 dropped n2 handleBytes_minus_1023 handleBytes_zero_frame
      handleBytes_zero_frame_again
    by (intro conjI)
qed

text \<open>
  C4. With \<open>SignificantlyDifferent\<close> as the specification describes it (the
  absolute difference of the new value and the stored one exceeds the threshold
  of the configured noise reduction level): a frame of whole words processed by
  \<open>handleBytes\<close> from a state between frames produces an event for a channel
  exactly when that difference exceeds the threshold or the reading's toggle-mute
  flag is set; a reading with the flag set always gets its event, and the stored
  mute flag of its channel is negated. A matching line whose first number is at
  most 1023, processed by \<open>handleLine\<close>, produces an event for a channel
  exactly when the difference exceeds the threshold. The stored value is the one
  the handler holds after the channel-count step.
\<close>

theorem C4_event_iff_over_threshold_or_toggle:
  fixes d :: "real deej"
  assumes spec: "SignificantlyDifferent d = SignificantlyDifferent_spec threshold"
  shows
  "(even (length bytes) \<and> slidersKnown sio \<longrightarrow>
      (\<exists>sio' evs sends.
         handleBytes d sio bytes = Inr (sio', evs, sends) \<and>
         (\<forall>i<length (frameWords bytes).
            ((\<exists>e\<in>set evs. SliderID e = int i) =
               (\<bar>sliderValue d i (ad_Value (frameWords bytes ! i)) -
                  vd_Value (currentVolumeDatas (countSliders d (length (frameWords bytes)) sio) ! i)\<bar>
                  > threshold (NoiseReductionLevel d) \<or>
                ad_ToggleMute (frameWords bytes ! i))) \<and>
            (ad_ToggleMute (frameWords bytes ! i) \<longrightarrow>
               (\<exists>e\<in>set evs. SliderID e = int i \<and> ToggleMute e) \<and>
               vd_Mute (currentVolumeDatas sio' ! i) =
                 (\<not> vd_Mute (currentVolumeDatas (countSliders d (length (frameWords bytes)) sio) ! i)))))) \<and>
   (MatchString expectedLinePattern line \<and> fst (Atoi (hd (splitLine line))) \<le> 1023 \<and>
    slidersKnown_line sio_line \<longrightarrow>
      (\<exists>sio' evs sends.
         handleLine d sio_line line = Inr (sio', evs, sends) \<and>
         (\<forall>i<length (splitLine line).
            (\<exists>e\<in>set evs. SliderID e = int i) =
               (\<bar>lineValue d (splitLine line ! i) -
                  currentSliderPercentValues
                    (countSliders_line d (length (splitLine line)) sio_line) ! i\<bar>
                  > threshold (NoiseReductionLevel d)))))"
proof (intro conjI impI)
  let ?data = "frameWords bytes"
  let ?vols = "currentVolumeDatas (countSliders d (length ?data) sio)"
  assume "even (length bytes) \<and> slidersKnown sio"
  then have "even (length bytes)" "slidersKnown sio" by simp_all
  from handleBytes_events [OF this, of d] obtain sio' evs sends where
    run: "handleBytes d sio bytes = Inr (sio', evs, sends)"
    and iff: "\<forall>i<length ?data.
              ((\<exists>e\<in>set evs. SliderID e = int i) = sliderMoves d (?vols ! i) i (?data ! i)) \<and>
              (sliderMoves d (?vols ! i) i (?data ! i) \<longrightarrow>
                 sliderEvent d i (?data ! i) \<in> set evs \<and>
                 currentVolumeDatas sio' ! i = movedVolume d (?vols ! i) i (?data ! i))"
    by blast
  have moves: "sliderMoves d (?vols ! i) i (?data ! i) =
                 (\<bar>sliderValue d i (ad_Value (?data ! i)) - vd_Value (?vols ! i)\<bar>
                    > threshold (NoiseReductionLevel d) \<or> ad_ToggleMute (?data ! i))" for i
    by (simp add: sliderMoves_def spec SignificantlyDifferent_spec_def)
  have toggle: "(\<exists>e\<in>set evs. SliderID e = int i \<and> ToggleMute e) \<and>
                vd_Mute (currentVolumeDatas sio' ! i) = (\<not> vd_Mute (?vols ! i))"
    if i: "i < length ?data" and t: "ad_ToggleMute (?data ! i)" for i
  proof -
    from t have "sliderMoves d (?vols ! i) i (?data ! i)" by (simp add: moves)
    with iff i have ev: "sliderEvent d i (?data ! i) \<in> set evs"
      and vol: "currentVolumeDatas sio' ! i = movedVolume d (?vols ! i) i (?data ! i)"
      by blast+
    from ev t have "\<exists>e\<in>set evs. SliderID e = int i \<and> ToggleMute e"
      by (intro bexI [of _ "sliderEvent d i (?data ! i)"])
        (simp_all add: SliderID_sliderEvent ToggleMute_sliderEvent)
    with vol show ?thesis by (simp add: vd_Mute_movedVolume)
  qed
  show "\<exists>sio' evs sends.
         handleBytes d sio bytes = Inr (sio', evs, sends) \<and>
         (\<forall>i<length ?data.
            ((\<exists>e\<in>set evs. SliderID e = int i) =
               (\<bar>sliderValue d i (ad_Value (?data ! i)) - vd_Value (?vols ! i)\<bar>
                  > threshold (NoiseReductionLevel d) \<or> ad_ToggleMute (?data ! i))) \<and>
            (ad_ToggleMute (?data ! i) \<longrightarrow>
               (\<exists>e\<in>set evs. SliderID e = int i \<and> ToggleMute e) \<and>
               vd_Mute (currentVolumeDatas sio' ! i) = (\<not> vd_Mute (?vols ! i))))"
    using run iff toggle unfolding moves by blast
next
  let ?data = "splitLine line"
  let ?vals = "currentSliderPercentValues (countSliders_line d (length ?data) sio_line)"
  assume "MatchString expectedLinePattern line \<and> fst (Atoi (hd ?data)) \<le> 1023 \<and>
    slidersKnown_line sio_line"
  then have "MatchString expectedLinePattern line" "fst (Atoi (hd ?data)) \<le> 1023"
    "slidersKnown_line sio_line" by simp_all
  from handleLine_events [OF this, of d] obtain sio' evs sends where
    run: "handleLine d sio_line line = Inr (sio', evs, sends)"
    and iff: "\<forall>i<length ?data.
              (\<exists>e\<in>set evs. SliderID e = int i) = lineMoves d (?vals ! i) (?data ! i)"
    by blast
  have moves: "lineMoves d (?vals ! i) (?data ! i) =
                 (\<bar>lineValue d (?data ! i) - ?vals ! i\<bar> > threshold (NoiseReductionLevel d))" for i
    by (simp add: lineMoves_def spec SignificantlyDifferent_spec_def)
  show "\<exists>sio' evs sends.
         handleLine d sio_line line = Inr (sio', evs, sends) \<and>
         (\<forall>i<length ?data.
            (\<exists>e\<in>set evs. SliderID e = int i) =
               (\<bar>lineValue d (?data ! i) - ?vals ! i\<bar> > threshold (NoiseReductionLevel d)))"
    using run iff unfolding moves by blast
qed

text \<open>
  Two sliders with stored value 0. The binary frame \<open>0x0800 0x0000\<close> has the
  toggle-mute flag on slider 0 and value 0 on both: slider 0 gets an event and its
  mute flag is set, slider 1 gets none. The line \<open>0|1023\<close> moves slider 1 only.
\<close>

theorem C4_toggle_forces_event_witness:
  "SignificantlyDifferent ideal_deej = SignificantlyDifferent_spec (\<lambda>level. 25 / 1000) \<and>
   even (length [0x08 :: byte, 0x00, 0x00, 0x00]) \<and>
   slidersKnown (NewSerialIO\<lparr>lastKnownNumSliders := 2,
       currentVolumeDatas := [\<lparr> vd_Value = 0 :: real, vd_Mute = False \<rparr>,
                              \<lparr> vd_Value = 0, vd_Mute = False \<rparr>]\<rparr>) \<and>
   (\<exists>sio' evs sends.
      handleBytes ideal_deej
        (NewSerialIO\<lparr>lastKnownNumSliders := 2,
           currentVolumeDatas := [\<lparr> vd_Value = 0, vd_Mute = False \<rparr>,
                                  \<lparr> vd_Value = 0, vd_Mute = False \<rparr>]\<rparr>)
        [0x08, 0x00, 0x00, 0x00] = Inr (sio', evs, sends) \<and>
      (\<exists>e\<in>set evs. SliderID e = 0 \<and> ToggleMute e) \<and>
      vd_Mute (currentVolumeDatas sio' ! 0) \<and>
      \<not> (\<exists>e\<in>set evs. SliderID e = 1)) \<and>
   MatchString expectedLinePattern (println ''0|1023'') \<and>
   fst (Atoi (hd (splitLine (println ''0|1023'')))) \<le> 1023 \<and>
   slidersKnown_line (NewSerialIO_line\<lparr>lastKnownNumSliders := 2,
       currentSliderPercentValues := [0 :: real, 0]\<rparr>) \<and>
   (\<exists>sio' evs sends.
      handleLine ideal_deej
        (NewSerialIO_line\<lparr>lastKnownNumSliders := 2, currentSliderPercentValues := [0, 0]\<rparr>)
        (println ''0|1023'') = Inr (sio', evs, sends) \<and>
      \<not> (\<exists>e\<in>set evs. SliderID e = 0) \<and>
      (\<exists>e\<in>set evs. SliderID e = 1))"
proof -
  let ?bytes = "[0x08 :: byte, 0x00, 0x00, 0x00]"
  let ?sio = "(NewSerialIO :: real SerialIO)\<lparr>lastKnownNumSliders := 2,
       currentVolumeDatas := [\<lparr> vd_Value = 0, vd_Mute = False \<rparr>,
                              \<lparr> vd_Value = 0, vd_Mute = False \<rparr>]\<rparr>"
  let ?line = "println ''0|1023''"
  let ?sio_line = "(NewSerialIO_line :: real SerialIO_line)\<lparr>lastKnownNumSliders := 2,
       currentSliderPercentValues := [0, 0]\<rparr>"
  have sd: "SignificantlyDifferent ideal_deej = SignificantlyDifferent_spec (\<lambda>level. 25 / 1000)"
    by (simp add: ideal_deej_def)
  have e: "even (length ?bytes)" by simp
  have known: "slidersKnown ?sio"
    by (simp add: slidersKnown_def)
  have fw: "frameWords ?bytes =
              [\<lparr> ad_Value = 0, ad_ToggleMute = True \<rparr>, \<lparr> ad_Value = 0, ad_ToggleMute = False \<rparr>]"
    by (simp add: frameWords_two decodeWord_def packWord_def)
  have same: "countSliders ideal_deej (length (frameWords ?bytes)) ?sio = ?sio"
    by (simp add: fw countSliders_def)
  have val: "sliderValue ideal_deej i 0 = 0" for i
    by (simp add: sliderValue_def normalizedScalar_def ideal_deej_def NormalizeScalar_spec_def)
  have fields: "splitLine ?line = [''0'', ''1023'']"
    by (rule splitLine_0_1023)
  have first: "fst (Atoi (hd (splitLine ?line))) \<le> 1023"
    by (simp add: fields Atoi_def decimal_def isDigit_def)
  have known_line: "slidersKnown_line ?sio_line"
    by (simp add: slidersKnown_line_def)
  have same_line: "countSliders_line ideal_deej (length (splitLine ?line)) ?sio_line = ?sio_line"
    by (simp add: fields countSliders_line_def)
  have lv: "lineValue ideal_deej ''0'' = 0" "lineValue ideal_deej ''1023'' = 1"
    by (simp_all add: lineValue_def normalizedScalar_def ideal_deej_def NormalizeScalar_spec_def
        Atoi_def decimal_def isDigit_def)
  note inst = C4_event_iff_over_threshold_or_toggle [where d = ideal_deej
      and threshold = "\<lambda>level. 25 / 1000" and bytes = ?bytes and sio = ?sio
      and line = ?line and sio_line = ?sio_line, OF sd]
  from inst e known obtain sio' evs sends where
    run: "handleBytes ideal_deej ?sio ?bytes = Inr (sio', evs, sends)"
    and all: "\<forall>i<length (frameWords ?bytes).
            ((\<exists>e\<in>set evs. SliderID e = int i) =
               (\<bar>sliderValue ideal_deej i (ad_Value (frameWords ?bytes ! i)) -
                  vd_Value (currentVolumeDatas (countSliders ideal_deej (length (frameWords ?bytes)) ?sio) ! i)\<bar>
                  > (\<lambda>level. 25 / 1000) (NoiseReductionLevel ideal_deej) \<or>
                ad_ToggleMute (frameWords ?bytes ! i))) \<and>
            (ad_ToggleMute (frameWords ?bytes ! i) \<longrightarrow>
               (\<exists>e\<in>set evs. SliderID e = int i \<and> ToggleMute e) \<and>
               vd_Mute (currentVolumeDatas sio' ! i) =
                 (\<not> vd_Mute (currentVolumeDatas (countSliders ideal_deej (length (frameWords ?bytes)) ?sio) ! i)))"
    by blast
  from all [THEN spec, of 0]
  have b0: "(\<exists>e\<in>set evs. SliderID e = 0 \<and> ToggleMute e) \<and> vd_Mute (currentVolumeDatas sio' ! 0)"
    unfolding same by (simp add: fw)
  from all [THEN spec, of 1]
  have b1: "\<not> (\<exists>e\<in>set evs. SliderID e = 1)"
    unfolding same by (simp add: fw val)
  from inst line_0_1023 first known_line obtain sio_l evs_l sends_l where
    run_l: "handleLine ideal_deej ?sio_line ?line = Inr (sio_l, evs_l, sends_l)"
    and all_l: "\<forall>i<length (splitLine ?line).
            (\<exists>e\<in>set evs_l. SliderID e = int i) =
               (\<bar>lineValue ideal_deej (splitLine ?line ! i) -
                  currentSliderPercentValues
                    (countSliders_line ideal_deej (length (splitLine ?line)) ?sio_line) ! i\<bar>
                  > (\<lambda>level. 25 / 1000) (NoiseReductionLevel ideal_deej))"
    by blast
  from all_l [THEN spec, of 0] have l0: "\<not> (\<exists>e\<in>set evs_l. SliderID e = 0)"
    unfolding same_line by (simp add: fields lv)
  from all_l [THEN spec, of 1] have l1: "\<exists>e\<in>set evs_l. SliderID e = 1"
    unfolding same_line by (simp add: fields lv)
  have bin: "\<exists>sio' evs sends.
      handleBytes ideal_deej ?sio ?bytes = Inr (sio', evs, sends) \<and>
      (\<exists>e\<in>set evs. SliderID e = 0 \<and> ToggleMute e) \<and>
      vd_Mute (currentVolumeDatas sio' ! 0) \<and>
      \<not> (\<exists>e\<in>set evs. SliderID e = 1)"
    using run b0 b1 by blast
  have lin: "\<exists>sio' evs sends.
      handleLine ideal_deej ?sio_line ?line = Inr (sio', evs, sends) \<and>
      \<not> (\<exists>e\<in>set evs. SliderID e = 0) \<and>
      (\<exists>e\<in>set evs. SliderID e = 1)"
    using run_l l0 l1 by blast
  show ?thesis
    by (intro conjI sd e known bin line_0_1023 first known_line lin)
qed

text \<open>
  C8 (the code departs from the claim). \<open>handleBytes\<close> divides the reading as
  decoded: nothing clamps it before \<^verbatim>\<open>float32(number) / 1023.0\<close>. For every
  configuration and every arithmetic, a frame of one channel word with the
  toggle-mute bit set, handled in a state whose slice matches its slider count,
  emits exactly one event, for slider 0, delivered to every consumer, and its
  percent value is: on a slider that is not additive,
  \<open>NormalizeScalar (float32(number) / 1023)\<close>, or 1 minus that when the sliders are
  inverted, \<open>number\<close> being the signed reading of the word, negative readings
  included; on an additive slider, the current volume when the reading is 0, and
  otherwise the current volume plus that scalar, raised to 0 when below 0 and
  then lowered to 1 when above 1. Only the additive branch clamps, and it clamps
  the sum, after the division.
\<close>

theorem C8_reading_divided_unclamped:
  fixes d :: "'f deej"
  assumes toggle: "bit (packWord hi lo) 11"
      and known: "slidersKnown sio"
  shows "\<exists>sio' ev.
           handleBytes d sio [hi, lo] = Inr (sio', [ev], deliver (sliderMoveConsumers sio) [ev]) \<and>
           SliderID ev = 0 \<and>
           ToggleMute ev \<and>
           PercentValue ev =
             (let number = ad_Value (decodeWord hi lo);
                  dirtyFloat = f32_div d (f32 d number) (f32 d 1023);
                  normalized = NormalizeScalar d dirtyFloat;
                  scalar = (if InvertSliders d then f32_sub d (f32 d 1) normalized else normalized);
                  summed = f32_add d (getCurrentVolume d 0) scalar;
                  raised = (if f32_less d summed (f32 d 0) then f32 d 0 else summed);
                  clamped = (if f32_less d (f32 d 1) raised then f32 d 1 else raised)
              in if 0 \<in> set (AdditiveIndices d)
                 then (if number \<noteq> 0 then clamped else getCurrentVolume d 0)
                 else scalar)"
proof -
  let ?a = "decodeWord hi lo"
  have t: "ad_ToggleMute ?a"
    using toggle by (simp add: decodeWord_ToggleMute)
  have moves: "\<forall>i<length (frameWords [hi, lo]).
      sliderMoves d (currentVolumeDatas (countSliders d (length (frameWords [hi, lo])) sio) ! i) i
        (frameWords [hi, lo] ! i)"
    using t by (simp add: frameWords_one sliderMoves_def)
  have e: "even (length [hi, lo])"
    by simp
  from handleBytes_result [of "[hi, lo]" sio d] e known moves obtain sio' evs where
    run: "handleBytes d sio [hi, lo] = Inr (sio', evs, deliver (sliderMoveConsumers sio) evs)"
    and evs: "evs = map (\<lambda>i. sliderEvent d i (frameWords [hi, lo] ! i))
                      [0..<length (frameWords [hi, lo])]"
    by blast
  have one: "evs = [sliderEvent d 0 ?a]"
    using evs by (simp add: frameWords_one)
  have "SliderID (sliderEvent d 0 ?a) = 0" "ToggleMute (sliderEvent d 0 ?a)"
    using t by (simp_all add: sliderEvent_def)
  moreover have "PercentValue (sliderEvent d 0 ?a) =
             (let number = ad_Value (decodeWord hi lo);
                  dirtyFloat = f32_div d (f32 d number) (f32 d 1023);
                  normalized = NormalizeScalar d dirtyFloat;
                  scalar = (if InvertSliders d then f32_sub d (f32 d 1) normalized else normalized);
                  summed = f32_add d (getCurrentVolume d 0) scalar;
                  raised = (if f32_less d summed (f32 d 0) then f32 d 0 else summed);
                  clamped = (if f32_less d (f32 d 1) raised then f32 d 1 else raised)
              in if 0 \<in> set (AdditiveIndices d)
                 then (if number \<noteq> 0 then clamped else getCurrentVolume d 0)
                 else scalar)"
    by (simp add: sliderEvent_def sliderValue_def additiveVolume_def normalizedScalar_def Let_def)
  ultimately show ?thesis
    using run one by blast
qed

text \<open>
  The failing input: the frame \<open>0x0C 0x01\<close> (toggle-mute set, value -1023), with
  \<open>NormalizeScalar\<close> rounding to two decimals. On a slider that is not additive
  the event carries the percent value -1, and 2 when the sliders are inverted,
  both outside \<open>[0, 1]\<close>; on an additive slider whose current volume is 1/2 the
  sum is clamped to 0.
\<close>

theorem C8_minus_1023_witness:
  "bit (packWord 0x0C 0x01) 11 \<and>
   slidersKnown (NewSerialIO :: real SerialIO) \<and>
   decodeWord 0x0C 0x01 = \<lparr> ad_Value = - 1023, ad_ToggleMute = True \<rparr> \<and>
   (\<exists>sio'. handleBytes ideal_deej NewSerialIO [0x0C, 0x01] =
      Inr (sio', [\<lparr> SliderID = 0, PercentValue = - 1, ToggleMute = True \<rparr>], [])) \<and>
   (\<exists>sio'. handleBytes (ideal_deej\<lparr>InvertSliders := True\<rparr>) NewSerialIO [0x0C, 0x01] =
      Inr (sio', [\<lparr> SliderID = 0, PercentValue = 2, ToggleMute = True \<rparr>], [])) \<and>
   (\<exists>sio'. handleBytes (ideal_deej\<lparr>AdditiveIndices := [0]\<rparr>) NewSerialIO [0x0C, 0x01] =
      Inr (sio', [\<lparr> SliderID = 0, PercentValue = 0, ToggleMute = True \<rparr>], [])) \<and>
   \<not> (0 \<le> PercentValue \<lparr> SliderID = 0, PercentValue = - 1 :: real, ToggleMute = True \<rparr>) \<and>
   \<not> (PercentValue \<lparr> SliderID = 0, PercentValue = 2 :: real, ToggleMute = True \<rparr> \<le> 1)"
proof -
  let ?inv = "ideal_deej\<lparr>InvertSliders := True\<rparr>"
  let ?add = "ideal_deej\<lparr>AdditiveIndices := [0]\<rparr>"
  have t: "bit (packWord 0x0C 0x01) 11"
    using decodeWord_ToggleMute [of "0x0C" "0x01"] by (simp add: decodeWord_def packWord_def)
  have w: "decodeWord 0x0C 0x01 = \<lparr> ad_Value = - 1023, ad_ToggleMute = True \<rparr>"
    by (simp add: decodeWord_def packWord_def)
  have c: "sliderMoveConsumers (NewSerialIO :: real SerialIO) = []"
    by (simp add: NewSerialIO_def)
  have ev: "ev = \<lparr> SliderID = 0, PercentValue = v, ToggleMute = True \<rparr>"
    if "SliderID ev = 0" "ToggleMute ev" "PercentValue ev = v" for ev :: "real SliderEvent" and v
    using that by (cases ev) simp
  from C8_reading_divided_unclamped [OF t slidersKnown_New, of ideal_deej]
  have a: "\<exists>sio'. handleBytes ideal_deej NewSerialIO [0x0C, 0x01] =
      Inr (sio', [\<lparr> SliderID = 0, PercentValue = - 1, ToggleMute = True \<rparr>], [])"
    by (auto simp add: w c deliver_def ideal_deej_def NormalizeScalar_spec_def Let_def dest!: ev)
  from C8_reading_divided_unclamped [OF t slidersKnown_New, of ?inv]
  have b: "\<exists>sio'. handleBytes ?inv NewSerialIO [0x0C, 0x01] =
      Inr (sio', [\<lparr> SliderID = 0, PercentValue = 2, ToggleMute = True \<rparr>], [])"
    by (auto simp add: w c deliver_def ideal_deej_def NormalizeScalar_spec_def Let_def dest!: ev)
  from C8_reading_divided_unclamped [OF t slidersKnown_New, of ?add]
  have g: "\<exists>sio'. handleBytes ?add NewSerialIO [0x0C, 0x01] =
      Inr (sio', [\<lparr> SliderID = 0, PercentValue = 0, ToggleMute = True \<rparr>], [])"
    by (auto simp add: w c deliver_def ideal_deej_def NormalizeScalar_spec_def Let_def dest!: ev)
  have r: "\<not> (0 \<le> PercentValue \<lparr> SliderID = 0, PercentValue = - 1 :: real, ToggleMute = True \<rparr>)"
    "\<not> (PercentValue \<lparr> SliderID = 0, PercentValue = 2 :: real, ToggleMute = True \<rparr> \<le> 1)"
    by simp_all
  show ?thesis
    by (intro conjI t slidersKnown_New w a b g r)
qed

text \<open>
  C7 (as amended). \<open>handleLine\<close> accepts a line exactly when it is one or more
  fields of one to four digits each, with no sign, separated by \<open>|\<close> and
  followed by CR and LF, with no other character. Every other line is discarded:
  the handler returns with the state unchanged, no event, no send and no panic.
  An accepted line splits into exactly the fields of the grammar.
\<close>

theorem C7_line_accepted_iff_unsigned_grammar:
  "(MatchString expectedLinePattern line \<longleftrightarrow> lineGrammar False line) \<and>
   (\<not> lineGrammar False line \<longrightarrow> handleLine d sio line = Inr (sio, [], [])) \<and>
   (lineGrammar False line \<longrightarrow>
      list_all (isField False) (splitLine line) \<and> line = println (joinFields (splitLine line)))"
proof (intro conjI impI)
  show m: "MatchString expectedLinePattern line \<longleftrightarrow> lineGrammar False line"
    by (simp add: MatchString_iff_lang lang_expectedLinePattern)
  {
    assume "\<not> lineGrammar False line"
    with m show "handleLine d sio line = Inr (sio, [], [])"
      by (simp add: handleLine_no_match)
  }
  {
    assume "lineGrammar False line"
    then obtain flds where ne: "flds \<noteq> []" and all: "list_all (isField False) flds"
      and line: "line = println (joinFields flds)"
      by (auto simp add: lineGrammar_def)
    from splitLine_grammar [OF ne all] line have sp: "splitLine line = flds" by simp
    show "list_all (isField False) (splitLine line)"
      unfolding sp by (rule all)
    show "line = println (joinFields (splitLine line))"
      unfolding sp by (rule line)
  }
qed

text \<open>The line \<open>0|1023\<close> is accepted and has the two fields; the line \<open>-5\<close> is discarded.\<close>

theorem C7_grammar_witness:
  "MatchString expectedLinePattern (println ''0|1023'') \<and>
   lineGrammar False (println ''0|1023'') \<and>
   splitLine (println ''0|1023'') = [''0'', ''1023''] \<and>
   list_all (isField False) [''0'', ''1023''] \<and>
   \<not> MatchString expectedLinePattern (println ''-5'') \<and>
   \<not> lineGrammar False (println ''-5'') \<and>
   handleLine ideal_deej NewSerialIO_line (println ''-5'') = Inr (NewSerialIO_line, [], [])"
proof -
  note yes = C7_line_accepted_iff_unsigned_grammar [of "println ''0|1023''" ideal_deej NewSerialIO_line]
  note no = C7_line_accepted_iff_unsigned_grammar [of "println ''-5''" ideal_deej NewSerialIO_line]
  from yes line_0_1023 have g: "lineGrammar False (println ''0|1023'')" by blast
  with yes have "list_all (isField False) (splitLine (println ''0|1023''))" by blast
  then have f: "list_all (isField False) [''0'', ''1023'']"
    by (simp only: splitLine_0_1023)
  from no line_minus_5 have ng: "\<not> lineGrammar False (println ''-5'')" by blast
  with no have d: "handleLine ideal_deej NewSerialIO_line (println ''-5'') = Inr (NewSerialIO_line, [], [])"
    by blast
  show ?thesis
    by (intro conjI line_0_1023 g splitLine_0_1023 f line_minus_5 ng d)
qed

text \<open>
  The claim as stated fails at the line \<open>-5\<close>: it is a sign-prefixed integer
  followed by the line terminator, and the pattern that the claim quotes (the one
  serial.go declares) matches it, but the pattern that \<open>handleLine\<close> tests does
  not, and the line is discarded, where the line \<open>0\<close> is processed.
\<close>

theorem C7_counterexample_signed_line:
  "lineGrammar True (println ''-5'') \<and>
   MatchString expectedLinePattern_serial_go (println ''-5'') \<and>
   \<not> MatchString expectedLinePattern (println ''-5'') \<and>
   handleLine ideal_deej NewSerialIO_line (println ''-5'') = Inr (NewSerialIO_line, [], []) \<and>
   handleLine ideal_deej NewSerialIO_line (println ''0'') =
     Inr (NewSerialIO_line\<lparr>lastKnownNumSliders := 1, currentSliderPercentValues := [0]\<rparr>,
          [\<lparr> SliderID = 0, PercentValue = 0 \<rparr>], [])"
proof -
  have "isField True ''-5''"
    unfolding isField_def
    by (intro exI [of _ "''-''"] exI [of _ "''5''"]) (simp add: isDigit_def)
  then have g: "lineGrammar True (println ''-5'')"
    unfolding lineGrammar_def by (intro exI [of _ "[''-5'']"]) simp
  have d: "handleLine ideal_deej NewSerialIO_line (println ''-5'') = Inr (NewSerialIO_line, [], [])"
    using line_minus_5 by (rule handleLine_no_match)
  show ?thesis
    by (intro conjI g line_minus_5_serial_go line_minus_5 d handleLine_zero)
qed

end
